theory Spec2Isabelle
  imports Complex_Main
begin

section \<open>Data model\<close>

text \<open>
  The model follows \<^verbatim>\<open>src/src/ride_sharing_system.py\<close>, \<^verbatim>\<open>driver.py\<close> and
  \<^verbatim>\<open>passenger.py\<close>. A Python exception is a value of \<open>error\<close>; a call that does
  not return is the value \<open>None\<close> of the outer \<open>option\<close>, so a result has the type
  \<open>(error + 'a) option\<close>.
\<close>

datatype error = KeyError | IndexError | UnboundLocalError | ValueError

text \<open>Python numbers together with \<^verbatim>\<open>float('inf')\<close>.\<close>

datatype 'a ext = Fin 'a | PInf

fun ext_less :: "'a::linorder ext \<Rightarrow> 'a ext \<Rightarrow> bool" where
  "ext_less (Fin a) (Fin b) = (a < b)"
| "ext_less (Fin a) PInf = True"
| "ext_less PInf b = False"

fun ext_le :: "'a::linorder ext \<Rightarrow> 'a ext \<Rightarrow> bool" where
  "ext_le (Fin a) (Fin b) = (a \<le> b)"
| "ext_le a PInf = True"
| "ext_le PInf (Fin b) = False"

text \<open>
  A coordinate is a tuple (latitude, longitude). A graph node is a string; \<open>None\<close> is
  Python's \<^verbatim>\<open>None\<close>, which \<^verbatim>\<open>get_coordinates\<close> returns for an unmapped coordinate.
  The graph and the location mapping are dicts, kept as association lists in the order
  of the dict literal (\<^verbatim>\<open>.items()\<close> iterates in that order).
\<close>

type_synonym coord = "real \<times> real"
type_synonym node = "string option"
type_synonym routing_graph = "(string \<times> (string \<times> int) list) list"

text \<open>A route is what \<^verbatim>\<open>calculate_optimal_route\<close> returns: \<^verbatim>\<open>None\<close> or a list of nodes.\<close>

type_synonym route = "node list option"

record passenger_request =
  uuid :: string
  passenger :: string
  pickup_address :: coord
  dropoff_address :: coord
  is_canceled :: bool

text \<open>
  \<open>current_passenger\<close> and \<open>current_route\<close> are attributes that \<^verbatim>\<open>assign_ride\<close> creates:
  \<open>None\<close> means the attribute has not been set.
\<close>

record driver =
  name :: string
  location :: coord
  is_available :: bool
  current_passenger :: "passenger_request option"
  current_route :: "route option"

text \<open>
  The attributes of \<^verbatim>\<open>RideSharingSystem\<close>. A driver object is referred to by its
  index in \<open>drivers\<close>.
\<close>

record system =
  passenger_request_queue :: "passenger_request list"
  drivers :: "driver list"
  graph :: routing_graph
  location_mapping :: "(string \<times> coord) list"

definition sample_graph :: routing_graph where
  "sample_graph =
     [(''A'', [(''B'', 1), (''C'', 4)]),
      (''B'', [(''A'', 1), (''C'', 2), (''D'', 5)]),
      (''C'', [(''A'', 4), (''B'', 2), (''D'', 1)]),
      (''D'', [(''B'', 5), (''C'', 1)])]"

definition sample_location_mapping :: "(string \<times> coord) list" where
  "sample_location_mapping =
     [(''A'', (48.8566, 2.3522)),
      (''B'', (40.7128, -74.0060)),
      (''C'', (51.5074, -0.1278)),
      (''D'', (52.5200, 13.4050))]"

definition MAX_DISTANCE :: "real ext" where
  "MAX_DISTANCE = PInf"

definition AVERAGE_SPEED :: real where
  "AVERAGE_SPEED = 30.0"

section \<open>Route planner\<close>

text \<open>
  \<^verbatim>\<open>heapq\<close> keeps tuples \<^verbatim>\<open>(distance, node)\<close>; \<^verbatim>\<open>heappop\<close> returns the smallest one in
  Python's tuple order (distance first, then the node strings by code point). Equal tuples
  are the same value, so the heap is modelled as the list of its entries, \<open>heappush\<close>
  adding one and \<open>heappop\<close> removing the least. Graph keys are strings, so \<^verbatim>\<open>None\<close> is
  in the heap only as the start node, alone; \<open>node_less\<close> is never asked to compare it.
\<close>

fun str_less :: "string \<Rightarrow> string \<Rightarrow> bool" where
  "str_less [] [] = False"
| "str_less [] (y # ys) = True"
| "str_less (x # xs) [] = False"
| "str_less (x # xs) (y # ys) =
     ((of_char x :: nat) < of_char y \<or> (x = y \<and> str_less xs ys))"

fun node_less :: "node \<Rightarrow> node \<Rightarrow> bool" where
  "node_less (Some a) (Some b) = str_less a b"
| "node_less None (Some b) = True"
| "node_less a None = False"

definition entry_less :: "int \<times> node \<Rightarrow> int \<times> node \<Rightarrow> bool" where
  "entry_less a b = (fst a < fst b \<or> (fst a = fst b \<and> node_less (snd a) (snd b)))"

fun heap_min :: "int \<times> node \<Rightarrow> (int \<times> node) list \<Rightarrow> int \<times> node" where
  "heap_min m [] = m"
| "heap_min m (e # es) = heap_min (if entry_less e m then e else m) es"

definition heappop :: "int \<times> node \<Rightarrow> (int \<times> node) list \<Rightarrow> (int \<times> node) \<times> (int \<times> node) list" where
  "heappop e es = (let m = heap_min e es in (m, remove1 m (e # es)))"

definition heappush :: "(int \<times> node) list \<Rightarrow> int \<times> node \<Rightarrow> (int \<times> node) list" where
  "heappush q e = q @ [e]"

text \<open>Truth value of a node in \<^verbatim>\<open>while current_node:\<close> and of a route in \<^verbatim>\<open>if not optimal_route:\<close>.\<close>

definition node_truthy :: "node \<Rightarrow> bool" where
  "node_truthy n = (n \<noteq> None \<and> n \<noteq> Some [])"

definition route_truthy :: "route \<Rightarrow> bool" where
  "route_truthy r = (r \<noteq> None \<and> r \<noteq> Some [])"

definition graph_get :: "routing_graph \<Rightarrow> node \<Rightarrow> (string \<times> int) list option" where
  "graph_get g n = (case n of None \<Rightarrow> None | Some s \<Rightarrow> map_of g s)"

type_synonym distances = "node \<rightharpoonup> int ext"
type_synonym predecessors = "node \<rightharpoonup> node"

text \<open>The loop \<^verbatim>\<open>for neighbor, weight in self.graph[current_node].items()\<close>.\<close>

fun relax_neighbors ::
  "int \<Rightarrow> node \<Rightarrow> (string \<times> int) list \<Rightarrow> distances \<times> predecessors \<times> (int \<times> node) list
    \<Rightarrow> error + distances \<times> predecessors \<times> (int \<times> node) list" where
  "relax_neighbors current_distance current_node [] s = Inr s"
| "relax_neighbors current_distance current_node ((neighbor, weight) # rest) (D, P, Q) =
     (let distance = current_distance + weight in
      case D (Some neighbor) of
        None \<Rightarrow> Inl KeyError
      | Some dn \<Rightarrow>
          if ext_less (Fin distance) dn
          then relax_neighbors current_distance current_node rest
                 (D(Some neighbor \<mapsto> Fin distance), P(Some neighbor \<mapsto> current_node),
                  heappush Q (distance, Some neighbor))
          else relax_neighbors current_distance current_node rest (D, P, Q))"

text \<open>The loop \<^verbatim>\<open>while current_node:\<close> that follows the predecessors back from the end node.\<close>

partial_function (option) reconstruct_path ::
  "predecessors \<Rightarrow> node \<Rightarrow> node list \<Rightarrow> (error + node list) option" where
  "reconstruct_path P current_node path =
     (if node_truthy current_node
      then (case P current_node of
              None \<Rightarrow> Some (Inl KeyError)
            | Some p \<Rightarrow> reconstruct_path P p (path @ [current_node]))
      else Some (Inr path))"

text \<open>The loop \<^verbatim>\<open>while queue:\<close> of \<^verbatim>\<open>calculate_optimal_route\<close>.\<close>

partial_function (option) route_search ::
  "routing_graph \<Rightarrow> node \<Rightarrow> distances \<Rightarrow> predecessors \<Rightarrow> (int \<times> node) list
    \<Rightarrow> (error + route) option" where
  "route_search g end_node D P Q =
     (case Q of
        [] \<Rightarrow> Some (Inr None)
      | e # es \<Rightarrow>
        let ((current_distance, current_node), Q') = heappop e es in
        if current_node = end_node
        then (case reconstruct_path P current_node [] of
                None \<Rightarrow> None
              | Some (Inl err) \<Rightarrow> Some (Inl err)
              | Some (Inr path) \<Rightarrow> Some (Inr (Some (rev path))))
        else (case D current_node of
                None \<Rightarrow> Some (Inl KeyError)
              | Some dc \<Rightarrow>
                  if ext_less dc (Fin current_distance) then route_search g end_node D P Q'
                  else (case graph_get g current_node of
                          None \<Rightarrow> Some (Inl KeyError)
                        | Some nbrs \<Rightarrow>
                            (case relax_neighbors current_distance current_node nbrs (D, P, Q') of
                               Inl err \<Rightarrow> Some (Inl err)
                             | Inr (D', P', Q'') \<Rightarrow> route_search g end_node D' P' Q''))))"

definition calculate_optimal_route :: "routing_graph \<Rightarrow> node \<Rightarrow> node \<Rightarrow> (error + route) option" where
  "calculate_optimal_route g start_node end_node =
     (let distances = (map_of (map (\<lambda>(n, _). (Some n, PInf)) g))(start_node \<mapsto> Fin 0);
          predecessors = map_of (map (\<lambda>(n, _). (Some n, None)) g)
      in route_search g end_node distances predecessors [(0, start_node)])"

text \<open>The total weight of a node sequence in a graph, \<open>None\<close> when a step is not an edge.\<close>

fun path_weight :: "routing_graph \<Rightarrow> string list \<Rightarrow> int option" where
  "path_weight g [] = Some 0"
| "path_weight g [a] = Some 0"
| "path_weight g (a # b # rest) =
     (case map_of g a of
        None \<Rightarrow> None
      | Some nbrs \<Rightarrow>
          (case map_of nbrs b of
             None \<Rightarrow> None
           | Some w \<Rightarrow> map_option (\<lambda>t. w + t) (path_weight g (b # rest))))"

section \<open>Driver registry and dispatch\<close>

text \<open>
  The floating-point operations of the dispatch. \<^verbatim>\<open>calculate_distance\<close> is the haversine
  formula: on finite coordinates it returns a finite number or raises ValueError
  (\<^verbatim>\<open>math.sqrt\<close> of a negative number, which rounding produces for nearly antipodal
  points). Division and multiplication of floats round their results. The dispatch functions
  take the three operations as the parameter \<open>np\<close>, and nothing is assumed about them: a
  distance is whatever \<open>calculate_distance np\<close> returns, and two distances may round to the
  same estimated arrival time.
\<close>

record numerics =
  calculate_distance :: "coord \<Rightarrow> coord \<Rightarrow> error + real"
  float_div :: "real \<Rightarrow> real \<Rightarrow> real"
  float_mul :: "real \<Rightarrow> real \<Rightarrow> real"

text \<open>
  The loop \<^verbatim>\<open>for driver in self.drivers\<close> of \<^verbatim>\<open>find_available_drivers\<close>. The distance is
  computed only for an available driver (\<^verbatim>\<open>and\<close> evaluates its right operand only then).
\<close>

fun available_drivers_loop ::
  "numerics \<Rightarrow> driver list \<Rightarrow> coord \<Rightarrow> nat list \<Rightarrow> nat list \<Rightarrow> error + nat list" where
  "available_drivers_loop np ds passenger_location [] available_drivers = Inr available_drivers"
| "available_drivers_loop np ds passenger_location (i # rest) available_drivers =
     (if is_available (ds ! i)
      then (case calculate_distance np (location (ds ! i)) passenger_location of
              Inl err \<Rightarrow> Inl err
            | Inr d \<Rightarrow>
                if ext_le (Fin d) MAX_DISTANCE
                then available_drivers_loop np ds passenger_location rest (available_drivers @ [i])
                else available_drivers_loop np ds passenger_location rest available_drivers)
      else available_drivers_loop np ds passenger_location rest available_drivers)"

definition find_available_drivers :: "numerics \<Rightarrow> system \<Rightarrow> coord \<Rightarrow> error + nat list" where
  "find_available_drivers np st passenger_location =
     available_drivers_loop np (drivers st) passenger_location [0..<length (drivers st)] []"

fun get_coordinates :: "(string \<times> coord) list \<Rightarrow> coord \<Rightarrow> node" where
  "get_coordinates [] address = None"
| "get_coordinates ((location_identifier, location_coordinates) # rest) address =
     (if location_coordinates = address then Some location_identifier
      else get_coordinates rest address)"

definition calculate_estimated_arrival_time :: "numerics \<Rightarrow> real \<Rightarrow> real" where
  "calculate_estimated_arrival_time np distance =
     float_mul np (float_div np distance AVERAGE_SPEED) 60"

definition handle_unavailable_driver :: "system \<Rightarrow> passenger_request \<Rightarrow> system" where
  "handle_unavailable_driver st p =
     st\<lparr>passenger_request_queue := passenger_request_queue st @ [p]\<rparr>"

definition assign_ride :: "system \<Rightarrow> nat \<Rightarrow> passenger_request \<Rightarrow> route \<Rightarrow> real ext \<Rightarrow> system" where
  "assign_ride st i p optimal_route distance =
     (if is_available (drivers st ! i)
      then st\<lparr>drivers := (drivers st)
                [i := (drivers st ! i)\<lparr>is_available := False,
                                        current_passenger := Some p,
                                        current_route := Some optimal_route\<rparr>]\<rparr>
      else handle_unavailable_driver st p)"

text \<open>
  The local variables of \<^verbatim>\<open>process_passenger_requests\<close> that the loop over the available
  drivers updates. \<open>optimal_route\<close> is unbound (\<open>None\<close>) until the loop body has run.
\<close>

record locals =
  best_driver :: "nat option"
  best_distance :: "real ext"
  best_estimated_arrival_time :: "real ext"
  optimal_route :: "route option"

definition init_locals :: locals where
  "init_locals = \<lparr>best_driver = None, best_distance = PInf,
                  best_estimated_arrival_time = PInf, optimal_route = None\<rparr>"

text \<open>The loop \<^verbatim>\<open>for driver in available_drivers\<close>.\<close>

fun match_drivers ::
  "numerics \<Rightarrow> passenger_request \<Rightarrow> node \<Rightarrow> nat list \<Rightarrow> system \<times> locals
    \<Rightarrow> (error + system \<times> locals) option" where
  "match_drivers np r pickup [] s = Some (Inr s)"
| "match_drivers np r pickup (i # rest) (st, l) =
     (let drv = drivers st ! i;
          driver_grid_location = get_coordinates (location_mapping st) (location drv)
      in case calculate_optimal_route (graph st) driver_grid_location pickup of
           None \<Rightarrow> None
         | Some (Inl err) \<Rightarrow> Some (Inl err)
         | Some (Inr rt) \<Rightarrow>
             let l1 = l\<lparr>optimal_route := Some rt\<rparr> in
             if \<not> route_truthy rt
             then match_drivers np r pickup rest (handle_unavailable_driver st r, l1)
             else
               (case calculate_distance np (location drv) (pickup_address r) of
                  Inl err \<Rightarrow> Some (Inl err)
                | Inr distance_to_pickup \<Rightarrow>
                    let estimated_arrival_time =
                          calculate_estimated_arrival_time np distance_to_pickup
                    in if ext_less (Fin estimated_arrival_time) (best_estimated_arrival_time l1) \<or>
                          (Fin estimated_arrival_time = best_estimated_arrival_time l1 \<and>
                           ext_less (Fin distance_to_pickup) (best_distance l1))
                       then match_drivers np r pickup rest
                              (st, l1\<lparr>best_driver := Some i,
                                      best_distance := Fin distance_to_pickup,
                                      best_estimated_arrival_time := Fin estimated_arrival_time\<rparr>)
                       else match_drivers np r pickup rest (st, l1)))"

text \<open>One pass of the body of \<^verbatim>\<open>while self.passenger_request_queue\<close>: a dispatch cycle.\<close>

definition dispatch_cycle :: "numerics \<Rightarrow> system \<Rightarrow> (error + system) option" where
  "dispatch_cycle np st =
     (case passenger_request_queue st of
        [] \<Rightarrow> Some (Inl IndexError)
      | r # q \<Rightarrow>
          let st1 = st\<lparr>passenger_request_queue := q\<rparr> in
          if is_canceled r then Some (Inr st1)
          else
            (case find_available_drivers np st1 (pickup_address r) of
               Inl err \<Rightarrow> Some (Inl err)
             | Inr available_drivers \<Rightarrow>
                 let passenger_grid_pickup_location =
                       get_coordinates (location_mapping st1) (pickup_address r)
                 in case match_drivers np r passenger_grid_pickup_location available_drivers
                           (st1, init_locals) of
                      None \<Rightarrow> None
                    | Some (Inl err) \<Rightarrow> Some (Inl err)
                    | Some (Inr (st2, l)) \<Rightarrow>
                        (case best_driver l of
                           Some b \<Rightarrow>
                             (case optimal_route l of
                                None \<Rightarrow> Some (Inl UnboundLocalError)
                              | Some rt \<Rightarrow>
                                  Some (Inr (assign_ride st2 b r rt (best_distance l))))
                         | None \<Rightarrow> Some (Inr (handle_unavailable_driver st2 r)))))"

partial_function (option) process_passenger_requests ::
  "numerics \<Rightarrow> system \<Rightarrow> (error + system) option" where
  "process_passenger_requests np st =
     (if passenger_request_queue st = [] then Some (Inr st)
      else (case dispatch_cycle np st of
              None \<Rightarrow> None
            | Some (Inl err) \<Rightarrow> Some (Inl err)
            | Some (Inr st') \<Rightarrow> process_passenger_requests np st'))"

section \<open>Sample data\<close>

text \<open>
  Two instances of the floating-point operations for the concrete scenarios. Both take the
  sum of the coordinate differences as the distance, which orders the sample cities as the
  haversine distance does. \<open>grid_numerics\<close> computes exactly; \<open>coarse_numerics\<close> rounds a
  product down to a multiple of 100, so that distinct distances get the same estimated
  arrival time.
\<close>

definition grid_distance :: "coord \<Rightarrow> coord \<Rightarrow> real" where
  "grid_distance a b = \<bar>fst a - fst b\<bar> + \<bar>snd a - snd b\<bar>"

definition grid_numerics :: numerics where
  "grid_numerics =
     \<lparr>calculate_distance = (\<lambda>a b. Inr (grid_distance a b)),
      float_div = (\<lambda>x y. x / y), float_mul = (\<lambda>x y. x * y)\<rparr>"

definition coarse_numerics :: numerics where
  "coarse_numerics =
     \<lparr>calculate_distance = (\<lambda>a b. Inr (grid_distance a b)),
      float_div = (\<lambda>x y. x / y),
      float_mul = (\<lambda>x y. 100 * real_of_int \<lfloor>x * y / 100\<rfloor>)\<rparr>"

definition mk_request :: "string \<Rightarrow> string \<Rightarrow> coord \<Rightarrow> coord \<Rightarrow> passenger_request" where
  "mk_request u p pickup dropoff =
     \<lparr>uuid = u, passenger = p, pickup_address = pickup, dropoff_address = dropoff,
      is_canceled = False\<rparr>"

definition mk_driver :: "string \<Rightarrow> coord \<Rightarrow> bool \<Rightarrow> driver" where
  "mk_driver n loc avail =
     \<lparr>name = n, location = loc, is_available = avail,
      current_passenger = None, current_route = None\<rparr>"

definition john :: passenger_request where
  "john = mk_request ''u1'' ''John'' (48.8566, 2.3522) (52.5200, 13.4050)"

section \<open>Notions used to state the properties\<close>

text \<open>
  The candidates of a dispatch cycle are the available drivers, in registry order: with
  \<^verbatim>\<open>MAX_DISTANCE\<close> infinite, \<^verbatim>\<open>find_available_drivers\<close> returns them whenever its distance
  computations return (lemmas \<open>find_available_drivers_returns\<close> and
  \<open>find_available_drivers_result\<close>).
\<close>

definition candidates :: "system \<Rightarrow> nat list" where
  "candidates st = filter (\<lambda>i. is_available (drivers st ! i)) [0..<length (drivers st)]"

text \<open>The pickup node of a request, as the dispatch cycle computes it.\<close>

definition pickup_node :: "system \<Rightarrow> passenger_request \<Rightarrow> node" where
  "pickup_node st r = get_coordinates (location_mapping st) (pickup_address r)"

text \<open>
  The route computed for candidate \<open>i\<close> of a request with pickup node \<open>pickup\<close>:
  the call of \<^verbatim>\<open>calculate_optimal_route\<close> in the loop over the available drivers.
\<close>

definition candidate_route :: "system \<Rightarrow> node \<Rightarrow> nat \<Rightarrow> (error + route) option" where
  "candidate_route st pickup i =
     calculate_optimal_route (graph st)
       (get_coordinates (location_mapping st) (location (drivers st ! i))) pickup"

text \<open>
  A candidate is routable when the call returns a non-empty route, unroutable when it
  returns \<^verbatim>\<open>None\<close> or an empty list; \<open>route_returns\<close> says that the call returns at all,
  \<open>distance_returns\<close> that \<^verbatim>\<open>calculate_distance\<close> does not raise for the candidate, and
  \<open>cycle_computes\<close> that both hold for every candidate of the request.
\<close>

definition routable :: "system \<Rightarrow> node \<Rightarrow> nat \<Rightarrow> bool" where
  "routable st pickup i =
     (case candidate_route st pickup i of Some (Inr rt) \<Rightarrow> route_truthy rt | _ \<Rightarrow> False)"

definition unroutable :: "system \<Rightarrow> node \<Rightarrow> nat \<Rightarrow> bool" where
  "unroutable st pickup i =
     (case candidate_route st pickup i of Some (Inr rt) \<Rightarrow> \<not> route_truthy rt | _ \<Rightarrow> False)"

definition route_returns :: "system \<Rightarrow> node \<Rightarrow> nat \<Rightarrow> bool" where
  "route_returns st pickup i =
     (case candidate_route st pickup i of Some (Inr rt) \<Rightarrow> True | _ \<Rightarrow> False)"

definition distance_returns :: "numerics \<Rightarrow> system \<Rightarrow> passenger_request \<Rightarrow> nat \<Rightarrow> bool" where
  "distance_returns np st r i =
     (case calculate_distance np (location (drivers st ! i)) (pickup_address r) of
        Inr d \<Rightarrow> True | Inl err \<Rightarrow> False)"

definition cycle_computes :: "numerics \<Rightarrow> system \<Rightarrow> passenger_request \<Rightarrow> bool" where
  "cycle_computes np st r =
     (\<forall>i\<in>set (candidates st).
        distance_returns np st r i \<and> route_returns st (pickup_node st r) i)"

text \<open>
  Pickup distance and estimated arrival time of candidate \<open>i\<close>: the values the cycle
  computes where \<^verbatim>\<open>calculate_distance\<close> returns.
\<close>

definition pickup_distance :: "numerics \<Rightarrow> system \<Rightarrow> passenger_request \<Rightarrow> nat \<Rightarrow> real" where
  "pickup_distance np st r i =
     (case calculate_distance np (location (drivers st ! i)) (pickup_address r) of
        Inr d \<Rightarrow> d | Inl err \<Rightarrow> 0)"

definition pickup_eta :: "numerics \<Rightarrow> system \<Rightarrow> passenger_request \<Rightarrow> nat \<Rightarrow> real" where
  "pickup_eta np st r i = calculate_estimated_arrival_time np (pickup_distance np st r i)"

text \<open>The test that replaces the best driver found so far.\<close>

definition is_better :: "real \<Rightarrow> real \<Rightarrow> locals \<Rightarrow> bool" where
  "is_better eta d l =
     (ext_less (Fin eta) (best_estimated_arrival_time l) \<or>
      (Fin eta = best_estimated_arrival_time l \<and> ext_less (Fin d) (best_distance l)))"

text \<open>
  The loop invariant of the selection: \<open>S\<close> is the set of routable candidates seen so far.
\<close>

definition best_ok ::
  "numerics \<Rightarrow> system \<Rightarrow> passenger_request \<Rightarrow> nat set \<Rightarrow> locals \<Rightarrow> bool" where
  "best_ok np st r S l =
     (case best_driver l of
        None \<Rightarrow> S = {} \<and> best_estimated_arrival_time l = PInf \<and> best_distance l = PInf
      | Some b \<Rightarrow>
          b \<in> S \<and> best_estimated_arrival_time l = Fin (pickup_eta np st r b) \<and>
          best_distance l = Fin (pickup_distance np st r b) \<and>
          (\<forall>j\<in>S. pickup_eta np st r b \<le> pickup_eta np st r j \<and>
                 (pickup_eta np st r j = pickup_eta np st r b \<longrightarrow>
                    pickup_distance np st r b \<le> pickup_distance np st r j)))"

text \<open>
  A request is hopeless in a state when it is not canceled and no available driver is
  routable for it. \<open>all_compute\<close> says that the computations of every queued request that
  is not canceled return. A state is doomed when the cycles of the drain, started there,
  reach a state whose queue holds a hopeless request.
\<close>

definition hopeless :: "system \<Rightarrow> passenger_request \<Rightarrow> bool" where
  "hopeless st r =
     (\<not> is_canceled r \<and> (\<forall>i\<in>set (candidates st). \<not> routable st (pickup_node st r) i))"

definition has_hopeless :: "system \<Rightarrow> bool" where
  "has_hopeless st = (\<exists>r\<in>set (passenger_request_queue st). hopeless st r)"

definition all_compute :: "numerics \<Rightarrow> system \<Rightarrow> bool" where
  "all_compute np st =
     (\<forall>r\<in>set (passenger_request_queue st). \<not> is_canceled r \<longrightarrow> cycle_computes np st r)"

inductive doomed :: "numerics \<Rightarrow> system \<Rightarrow> bool" for np :: numerics where
  now: "has_hopeless st \<Longrightarrow> doomed np st"
| later: "passenger_request_queue st \<noteq> [] \<Longrightarrow> dispatch_cycle np st = Some (Inr st') \<Longrightarrow>
          doomed np st' \<Longrightarrow> doomed np st"

text \<open>
  What a cycle preserves: graph, location mapping and driver locations stay, and the
  candidates can only become fewer.
\<close>

definition narrows :: "system \<Rightarrow> system \<Rightarrow> bool" where
  "narrows st st' =
     (graph st' = graph st \<and> location_mapping st' = location_mapping st \<and>
      (\<forall>i. location (drivers st' ! i) = location (drivers st ! i)) \<and>
      set (candidates st') \<subseteq> set (candidates st))"

section \<open>Concrete scenarios\<close>

text \<open>The coordinates, drivers, requests and systems of the concrete scenarios.\<close>

definition london :: coord where "london = (51.5074, -0.1278)"

definition new_york :: coord where "new_york = (40.7128, -74.0060)"

definition paris :: coord where "paris = (48.8566, 2.3522)"

definition berlin :: coord where "berlin = (52.5200, 13.4050)"

definition alice :: driver where "alice = mk_driver ''Alice'' london True"

definition bob :: driver where "bob = mk_driver ''Bob'' new_york True"

definition carol :: driver where "carol = mk_driver ''Carol'' london True"

definition dave :: driver where "dave = mk_driver ''Dave'' berlin True"

definition eve :: driver where "eve = mk_driver ''Eve'' (0, 0) True"

definition lost_john :: passenger_request where
  "lost_john = mk_request ''u2'' ''John'' (0, 0) (52.5200, 13.4050)"

definition canceled_john :: passenger_request where
  "canceled_john = john\<lparr>is_canceled := True\<rparr>"

definition sample_system :: "passenger_request list \<Rightarrow> driver list \<Rightarrow> system" where
  "sample_system q ds =
     \<lparr>passenger_request_queue = q, drivers = ds,
      graph = sample_graph, location_mapping = sample_location_mapping\<rparr>"

definition swapped_system :: system where
  "swapped_system = sample_system [john] [alice, bob]"

text \<open>A graph in which node C has no edge, so that no route leaves it.\<close>

definition island_graph :: routing_graph where
  "island_graph = [(''A'', [(''B'', 1)]), (''B'', [(''A'', 1)]), (''C'', [])]"

definition island_system :: system where
  "island_system =
     \<lparr>passenger_request_queue = [john], drivers = [alice, carol, bob],
      graph = island_graph, location_mapping = sample_location_mapping\<rparr>"

text \<open>The state after one dispatch cycle on \<open>island_system\<close>.\<close>

definition island_after :: system where
  "island_after =
     island_system
       \<lparr>passenger_request_queue := [john, john],
        drivers := [alice, carol,
                    bob\<lparr>is_available := False, current_passenger := Some john,
                         current_route := Some (Some [Some ''B'', Some ''A''])\<rparr>]\<rparr>"

definition unmapped_system :: system where
  "unmapped_system = sample_system [john] [eve]"

definition eve_system :: system where
  "eve_system = sample_system [john] [alice, eve]"

definition tie_system :: system where
  "tie_system = sample_system [john] [dave, alice]"

definition lost_system :: system where
  "lost_system = sample_system [lost_john] [alice, bob]"

definition busy_system :: system where
  "busy_system = sample_system [] [mk_driver ''Bob'' new_york False]"

definition canceled_system :: system where
  "canceled_system = sample_system [canceled_john] [alice, bob]"

section \<open>The available drivers\<close>

lemma available_drivers_loop_returns:
  "\<forall>i\<in>set js. is_available (ds ! i) \<longrightarrow>
      (\<exists>d. calculate_distance np (location (ds ! i)) loc = Inr d) \<Longrightarrow>
   available_drivers_loop np ds loc js acc
     = Inr (acc @ filter (\<lambda>i. is_available (ds ! i)) js)"
proof (induction js arbitrary: acc)
  case Nil
  then show ?case by simp
next
  case (Cons j js)
  show ?case
  proof (cases "is_available (ds ! j)")
    case True
    with Cons.prems obtain d where "calculate_distance np (location (ds ! j)) loc = Inr d"
      by auto
    with True Cons show ?thesis by (simp add: MAX_DISTANCE_def)
  next
    case False
    with Cons show ?thesis by simp
  qed
qed

lemma available_drivers_loop_result:
  "available_drivers_loop np ds loc js acc = Inr xs \<Longrightarrow>
   xs = acc @ filter (\<lambda>i. is_available (ds ! i)) js \<and>
   (\<forall>i\<in>set js. is_available (ds ! i) \<longrightarrow>
      (\<exists>d. calculate_distance np (location (ds ! i)) loc = Inr d))"
proof (induction js arbitrary: acc)
  case Nil
  then show ?case by simp
next
  case (Cons j js)
  show ?case
  proof (cases "is_available (ds ! j)")
    case True
    with Cons.prems obtain d where d: "calculate_distance np (location (ds ! j)) loc = Inr d"
      by (cases "calculate_distance np (location (ds ! j)) loc") auto
    with True Cons.prems
    have "available_drivers_loop np ds loc js (acc @ [j]) = Inr xs"
      by (simp add: MAX_DISTANCE_def)
    from Cons.IH[OF this] True d show ?thesis by auto
  next
    case False
    with Cons.prems have "available_drivers_loop np ds loc js acc = Inr xs" by simp
    from Cons.IH[OF this] False show ?thesis by auto
  qed
qed

lemma candidates_available:
  "i \<in> set (candidates st) \<longleftrightarrow> i < length (drivers st) \<and> is_available (drivers st ! i)"
  by (auto simp: candidates_def)

lemma distance_returns_iff:
  "distance_returns np st r i \<longleftrightarrow>
     (\<exists>d. calculate_distance np (location (drivers st ! i)) (pickup_address r) = Inr d)"
  by (cases "calculate_distance np (location (drivers st ! i)) (pickup_address r)")
     (simp_all add: distance_returns_def)

lemma find_available_drivers_returns:
  assumes "\<forall>i\<in>set (candidates st). distance_returns np st r i"
  shows "find_available_drivers np st (pickup_address r) = Inr (candidates st)"
proof -
  have "\<forall>i\<in>set [0..<length (drivers st)]. is_available (drivers st ! i) \<longrightarrow>
      (\<exists>d. calculate_distance np (location (drivers st ! i)) (pickup_address r) = Inr d)"
    using assms
    by (simp add: candidates_available distance_returns_iff)
  from available_drivers_loop_returns[OF this, of "[]"] show ?thesis
    by (simp add: find_available_drivers_def candidates_def)
qed

lemma find_available_drivers_result:
  assumes "find_available_drivers np st (pickup_address r) = Inr xs"
  shows "xs = candidates st" and "\<forall>i\<in>set (candidates st). distance_returns np st r i"
  using available_drivers_loop_result[OF assms[unfolded find_available_drivers_def]]
  by (auto simp: candidates_def distance_returns_iff)

section \<open>The loop over the candidates\<close>

lemma match_drivers_Cons:
  "match_drivers np r pk (i # rest) (st, l) =
     (case candidate_route st pk i of
        None \<Rightarrow> None
      | Some (Inl err) \<Rightarrow> Some (Inl err)
      | Some (Inr rt) \<Rightarrow>
          if \<not> route_truthy rt
          then match_drivers np r pk rest
                 (handle_unavailable_driver st r, l\<lparr>optimal_route := Some rt\<rparr>)
          else (case calculate_distance np (location (drivers st ! i)) (pickup_address r) of
                  Inl err \<Rightarrow> Some (Inl err)
                | Inr d \<Rightarrow>
                    if is_better (calculate_estimated_arrival_time np d) d l
                    then match_drivers np r pk rest
                           (st, l\<lparr>optimal_route := Some rt, best_driver := Some i,
                                   best_distance := Fin d,
                                   best_estimated_arrival_time :=
                                     Fin (calculate_estimated_arrival_time np d)\<rparr>)
                    else match_drivers np r pk rest (st, l\<lparr>optimal_route := Some rt\<rparr>)))"
  by (auto simp add: candidate_route_def is_better_def Let_def
      split: option.splits sum.splits)

declare match_drivers.simps(2) [simp del]

lemma candidate_route_requeue [simp]:
  "candidate_route (handle_unavailable_driver st r) pk i = candidate_route st pk i"
  by (simp add: candidate_route_def handle_unavailable_driver_def)

lemma candidate_route_queue_upd [simp]:
  "candidate_route (st\<lparr>passenger_request_queue := q\<rparr>) pk i = candidate_route st pk i"
  by (simp add: candidate_route_def)

lemma unroutable_queue_upd [simp]:
  "unroutable (st\<lparr>passenger_request_queue := q\<rparr>) pk = unroutable st pk"
  by (rule ext) (simp add: unroutable_def)

lemma routable_queue_upd [simp]:
  "routable (st\<lparr>passenger_request_queue := q\<rparr>) pk = routable st pk"
  by (rule ext) (simp add: routable_def)

lemma route_returns_queue_upd [simp]:
  "route_returns (st\<lparr>passenger_request_queue := q\<rparr>) pk i = route_returns st pk i"
  by (simp add: route_returns_def)

lemma unroutable_requeue [simp]:
  "unroutable (handle_unavailable_driver st r) pk = unroutable st pk"
  by (rule ext) (simp add: unroutable_def)

lemma routable_requeue [simp]:
  "routable (handle_unavailable_driver st r) pk = routable st pk"
  by (rule ext) (simp add: routable_def)

lemma route_returns_requeue [simp]:
  "route_returns (handle_unavailable_driver st r) pk i = route_returns st pk i"
  by (simp add: route_returns_def)

lemma drivers_requeue [simp]:
  "drivers (handle_unavailable_driver st r) = drivers st"
  by (simp add: handle_unavailable_driver_def)

lemma distance_returns_requeue [simp]:
  "distance_returns np (handle_unavailable_driver st r') r i = distance_returns np st r i"
  by (simp add: distance_returns_def)

lemma distance_returns_queue_upd [simp]:
  "distance_returns np (st\<lparr>passenger_request_queue := q\<rparr>) r i = distance_returns np st r i"
  by (simp add: distance_returns_def)

lemma pickup_distance_requeue [simp]:
  "pickup_distance np (handle_unavailable_driver st r') r i = pickup_distance np st r i"
  by (simp add: pickup_distance_def)

lemma pickup_distance_queue_upd [simp]:
  "pickup_distance np (st\<lparr>passenger_request_queue := q\<rparr>) r i = pickup_distance np st r i"
  by (simp add: pickup_distance_def)

lemma pickup_eta_requeue [simp]:
  "pickup_eta np (handle_unavailable_driver st r') r i = pickup_eta np st r i"
  by (simp add: pickup_eta_def)

lemma pickup_eta_queue_upd [simp]:
  "pickup_eta np (st\<lparr>passenger_request_queue := q\<rparr>) r i = pickup_eta np st r i"
  by (simp add: pickup_eta_def)

lemma candidates_queue_upd [simp]:
  "candidates (st\<lparr>passenger_request_queue := q\<rparr>) = candidates st"
  by (simp add: candidates_def)

lemma pickup_node_queue_upd [simp]:
  "pickup_node (st\<lparr>passenger_request_queue := q\<rparr>) r = pickup_node st r"
  by (simp add: pickup_node_def)

lemma match_drivers_frame:
  "match_drivers np r pk avail (st, l) = Some (Inr (st', l')) \<Longrightarrow>
   drivers st' = drivers st \<and> graph st' = graph st \<and> location_mapping st' = location_mapping st \<and>
   passenger_request_queue st' =
     passenger_request_queue st @ replicate (length (filter (unroutable st pk) avail)) r"
proof (induction avail arbitrary: st l)
  case Nil
  then show ?case by simp
next
  case (Cons i rest)
  from Cons.prems obtain rt where rt: "candidate_route st pk i = Some (Inr rt)"
    by (auto simp: match_drivers_Cons split: option.splits sum.splits)
  show ?case
  proof (cases "route_truthy rt")
    case True
    then have nu: "\<not> unroutable st pk i" by (simp add: unroutable_def rt)
    from Cons.prems rt True obtain l1 where
      "match_drivers np r pk rest (st, l1) = Some (Inr (st', l'))"
      by (auto simp: match_drivers_Cons split: if_splits sum.splits)
    from Cons.IH[OF this] nu show ?thesis by simp
  next
    case False
    then have u: "unroutable st pk i" by (simp add: unroutable_def rt)
    from Cons.prems rt False have
      "match_drivers np r pk rest (handle_unavailable_driver st r, l\<lparr>optimal_route := Some rt\<rparr>)
         = Some (Inr (st', l'))"
      by (simp add: match_drivers_Cons)
    from Cons.IH[OF this] u show ?thesis
      by (simp add: handle_unavailable_driver_def replicate_app_Cons_same)
  qed
qed

lemma match_drivers_returns:
  "\<forall>i\<in>set avail. distance_returns np st r i \<and> route_returns st pk i \<Longrightarrow>
   \<exists>st' l'. match_drivers np r pk avail (st, l) = Some (Inr (st', l'))"
proof (induction avail arbitrary: st l)
  case Nil
  then show ?case by simp
next
  case (Cons i rest)
  then obtain rt where rt: "candidate_route st pk i = Some (Inr rt)"
    by (auto simp: route_returns_def split: option.splits sum.splits)
  from Cons.prems obtain d where
    d: "calculate_distance np (location (drivers st ! i)) (pickup_address r) = Inr d"
    by (auto simp: distance_returns_iff)
  have rr: "\<forall>j\<in>set rest. distance_returns np (handle_unavailable_driver st r) r j \<and>
              route_returns (handle_unavailable_driver st r) pk j"
    using Cons.prems by simp
  have rr': "\<forall>j\<in>set rest. distance_returns np st r j \<and> route_returns st pk j"
    using Cons.prems by simp
  show ?case
    using Cons.IH[OF rr'] Cons.IH[OF rr]
    by (simp add: match_drivers_Cons rt d)
qed

lemma best_ok_requeue [simp]:
  "best_ok np (handle_unavailable_driver st r') r S l = best_ok np st r S l"
  by (simp add: best_ok_def split: option.splits)

lemma best_ok_queue_upd [simp]:
  "best_ok np (st\<lparr>passenger_request_queue := q\<rparr>) r S l = best_ok np st r S l"
  by (simp add: best_ok_def split: option.splits)

lemma best_ok_route_upd [simp]:
  "best_ok np st r S (l\<lparr>optimal_route := x\<rparr>) = best_ok np st r S l"
  by (simp add: best_ok_def split: option.splits)

lemma is_better_route_upd [simp]:
  "is_better e d (l\<lparr>optimal_route := x\<rparr>) = is_better e d l"
  by (simp add: is_better_def)

lemma best_ok_init: "best_ok np st r {} init_locals"
  by (simp add: best_ok_def init_locals_def)

lemma best_ok_keep:
  assumes "best_ok np st r S l"
    and "\<not> is_better (pickup_eta np st r i) (pickup_distance np st r i) l"
  shows "best_ok np st r (insert i S) l"
proof (cases "best_driver l")
  case None
  with assms show ?thesis by (simp add: best_ok_def is_better_def)
next
  case (Some b)
  with assms show ?thesis
    by (auto simp: best_ok_def is_better_def)
qed

lemma best_ok_take:
  assumes "best_ok np st r S l"
    and "is_better (pickup_eta np st r i) (pickup_distance np st r i) l"
  shows "best_ok np st r (insert i S)
           (l\<lparr>best_driver := Some i,
               best_distance := Fin (pickup_distance np st r i),
               best_estimated_arrival_time := Fin (pickup_eta np st r i)\<rparr>)"
proof (cases "best_driver l")
  case None
  with assms show ?thesis by (simp add: best_ok_def)
next
  case (Some b)
  with assms show ?thesis
    by (fastforce simp: best_ok_def is_better_def)
qed

lemma match_drivers_best:
  "match_drivers np r pk avail (st, l) = Some (Inr (st', l')) \<Longrightarrow> best_ok np st r S l \<Longrightarrow>
   best_ok np st r (S \<union> {i \<in> set avail. routable st pk i}) l'"
proof (induction avail arbitrary: st l S)
  case Nil
  then show ?case by simp
next
  case (Cons i rest)
  from Cons.prems(1) obtain rt where rt: "candidate_route st pk i = Some (Inr rt)"
    by (auto simp: match_drivers_Cons split: option.splits sum.splits)
  show ?case
  proof (cases "route_truthy rt")
    case False
    then have nr: "\<not> routable st pk i" by (simp add: routable_def rt)
    from Cons.prems(1) rt False have
      "match_drivers np r pk rest (handle_unavailable_driver st r, l\<lparr>optimal_route := Some rt\<rparr>)
         = Some (Inr (st', l'))"
      by (simp add: match_drivers_Cons)
    from Cons.IH[OF this, of S] Cons.prems(2)
    have "best_ok np st r (S \<union> {j \<in> set rest. routable st pk j}) l'" by simp
    moreover have "{j \<in> set (i # rest). routable st pk j} = {j \<in> set rest. routable st pk j}"
      using nr by auto
    ultimately show ?thesis by simp
  next
    case True
    then have ro: "routable st pk i" by (simp add: routable_def rt)
    have eq: "insert i S \<union> {j \<in> set rest. routable st pk j}
                = S \<union> {j \<in> set (i # rest). routable st pk j}"
      using ro by auto
    from Cons.prems(1) rt True obtain d where
      d: "calculate_distance np (location (drivers st ! i)) (pickup_address r) = Inr d"
      by (cases "calculate_distance np (location (drivers st ! i)) (pickup_address r)")
         (auto simp: match_drivers_Cons)
    then have pd: "pickup_distance np st r i = d"
      and pe: "pickup_eta np st r i = calculate_estimated_arrival_time np d"
      by (simp_all add: pickup_distance_def pickup_eta_def)
    show ?thesis
    proof (cases "is_better (pickup_eta np st r i) (pickup_distance np st r i) l")
      case b: True
      with Cons.prems(1) rt True d pd pe have
        "match_drivers np r pk rest
           (st, l\<lparr>optimal_route := Some rt, best_driver := Some i,
                   best_distance := Fin (pickup_distance np st r i),
                   best_estimated_arrival_time := Fin (pickup_eta np st r i)\<rparr>)
         = Some (Inr (st', l'))"
        by (simp add: match_drivers_Cons)
      moreover have "best_ok np st r (insert i S)
           (l\<lparr>optimal_route := Some rt, best_driver := Some i,
               best_distance := Fin (pickup_distance np st r i),
               best_estimated_arrival_time := Fin (pickup_eta np st r i)\<rparr>)"
      proof -
        have "best_ok np st r S (l\<lparr>optimal_route := Some rt\<rparr>)"
          using Cons.prems(2) by simp
        moreover have "is_better (pickup_eta np st r i) (pickup_distance np st r i)
                         (l\<lparr>optimal_route := Some rt\<rparr>)"
          using b by simp
        ultimately show ?thesis by (rule best_ok_take)
      qed
      ultimately show ?thesis using Cons.IH eq by metis
    next
      case nb: False
      with Cons.prems(1) rt True d pd pe have
        "match_drivers np r pk rest (st, l\<lparr>optimal_route := Some rt\<rparr>) = Some (Inr (st', l'))"
        by (simp add: match_drivers_Cons)
      moreover have "best_ok np st r (insert i S) (l\<lparr>optimal_route := Some rt\<rparr>)"
        using best_ok_keep[OF Cons.prems(2) nb] by simp
      ultimately show ?thesis using Cons.IH eq by metis
    qed
  qed
qed

lemma match_drivers_last_route:
  "match_drivers np r pk avail (st, l) = Some (Inr (st', l')) \<Longrightarrow> avail \<noteq> [] \<Longrightarrow>
   \<exists>rt. optimal_route l' = Some rt \<and> candidate_route st pk (last avail) = Some (Inr rt)"
proof (induction avail arbitrary: st l)
  case Nil
  then show ?case by simp
next
  case (Cons i rest)
  from Cons.prems(1) obtain rt where rt: "candidate_route st pk i = Some (Inr rt)"
    by (auto simp: match_drivers_Cons split: option.splits sum.splits)
  from Cons.prems(1) rt obtain st1 l1 where
    step: "match_drivers np r pk rest (st1, l1) = Some (Inr (st', l'))"
    and l1: "optimal_route l1 = Some rt"
    and st1: "st1 = st \<or> st1 = handle_unavailable_driver st r"
    by (auto simp: match_drivers_Cons split: if_splits sum.splits)
  show ?case
  proof (cases "rest = []")
    case True
    with step l1 rt show ?thesis by simp
  next
    case False
    from Cons.IH[OF step False] st1 False show ?thesis by auto
  qed
qed

section \<open>The dispatch cycle\<close>

text \<open>What the loop over the candidates of a request leaves behind.\<close>

lemma match_candidates:
  assumes m: "match_drivers np r (pickup_node st r) (candidates st)
                (st\<lparr>passenger_request_queue := q\<rparr>, init_locals) = Some (Inr (st2, l))"
  shows "drivers st2 = drivers st"
    and "passenger_request_queue st2 =
           q @ replicate (length (filter (unroutable st (pickup_node st r)) (candidates st))) r"
    and "best_ok np st r {i \<in> set (candidates st). routable st (pickup_node st r) i} l"
    and "best_driver l = None \<or> optimal_route l \<noteq> None"
    and "graph st2 = graph st" and "location_mapping st2 = location_mapping st"
proof -
  from match_drivers_frame[OF m] show "drivers st2 = drivers st"
    and "passenger_request_queue st2 =
           q @ replicate (length (filter (unroutable st (pickup_node st r)) (candidates st))) r"
    and "graph st2 = graph st" and "location_mapping st2 = location_mapping st"
    by simp_all
  from match_drivers_best[OF m, of "{}"] best_ok_init[of np st r]
  show ok: "best_ok np st r {i \<in> set (candidates st). routable st (pickup_node st r) i} l"
    by simp
  show "best_driver l = None \<or> optimal_route l \<noteq> None"
  proof (cases "best_driver l")
    case None
    then show ?thesis by simp
  next
    case (Some b)
    with ok have "candidates st \<noteq> []"
      by (auto simp: best_ok_def)
    from match_drivers_last_route[OF m this] show ?thesis by auto
  qed
qed

lemma dispatch_cycle_live:
  assumes q: "passenger_request_queue st = r # q" and nc: "\<not> is_canceled r"
    and f: "find_available_drivers np st (pickup_address r) = Inr (candidates st)"
    and m: "match_drivers np r (pickup_node st r) (candidates st)
                (st\<lparr>passenger_request_queue := q\<rparr>, init_locals) = Some (Inr (st2, l))"
  shows "dispatch_cycle np st =
           Some (Inr (case best_driver l of
                        None \<Rightarrow> handle_unavailable_driver st2 r
                      | Some b \<Rightarrow> assign_ride st2 b r (the (optimal_route l)) (best_distance l)))"
proof -
  have f': "find_available_drivers np (st\<lparr>passenger_request_queue := q\<rparr>) (pickup_address r)
              = Inr (candidates st)"
    using f by (simp add: find_available_drivers_def)
  from match_candidates(4)[OF m] show ?thesis
    using q nc m f'
    by (auto simp: dispatch_cycle_def pickup_node_def Let_def split: option.splits)
qed

lemma dispatch_cycle_match:
  assumes q: "passenger_request_queue st = r # q" and nc: "\<not> is_canceled r"
    and c: "dispatch_cycle np st = Some (Inr st')"
  shows "find_available_drivers np st (pickup_address r) = Inr (candidates st)"
    and "\<forall>i\<in>set (candidates st). distance_returns np st r i"
    and "\<exists>st2 l. match_drivers np r (pickup_node st r) (candidates st)
                (st\<lparr>passenger_request_queue := q\<rparr>, init_locals) = Some (Inr (st2, l))"
proof -
  from q nc c obtain xs where
    xs: "find_available_drivers np (st\<lparr>passenger_request_queue := q\<rparr>) (pickup_address r) = Inr xs"
    by (auto simp: dispatch_cycle_def Let_def split: sum.splits)
  then have xs': "find_available_drivers np st (pickup_address r) = Inr xs"
    by (simp add: find_available_drivers_def)
  from find_available_drivers_result[OF xs'] have eq: "xs = candidates st"
    and dr: "\<forall>i\<in>set (candidates st). distance_returns np st r i" by simp_all
  from xs' eq show "find_available_drivers np st (pickup_address r) = Inr (candidates st)"
    by simp
  from dr show "\<forall>i\<in>set (candidates st). distance_returns np st r i" .
  from q nc c xs eq
  show "\<exists>st2 l. match_drivers np r (pickup_node st r) (candidates st)
                (st\<lparr>passenger_request_queue := q\<rparr>, init_locals) = Some (Inr (st2, l))"
    by (auto simp: dispatch_cycle_def pickup_node_def Let_def
             split: option.splits sum.splits)
qed

lemma cycle_computes_match:
  assumes "cycle_computes np st r"
  shows "find_available_drivers np st (pickup_address r) = Inr (candidates st)"
    and "\<exists>st2 l. match_drivers np r (pickup_node st r) (candidates st)
                (st\<lparr>passenger_request_queue := q\<rparr>, init_locals) = Some (Inr (st2, l))"
proof -
  from assms show "find_available_drivers np st (pickup_address r) = Inr (candidates st)"
    by (intro find_available_drivers_returns) (simp add: cycle_computes_def)
  from assms have "\<forall>i\<in>set (candidates st).
      distance_returns np (st\<lparr>passenger_request_queue := q\<rparr>) r i \<and>
      route_returns (st\<lparr>passenger_request_queue := q\<rparr>) (pickup_node st r) i"
    by (simp add: cycle_computes_def)
  from match_drivers_returns[OF this]
  show "\<exists>st2 l. match_drivers np r (pickup_node st r) (candidates st)
                (st\<lparr>passenger_request_queue := q\<rparr>, init_locals) = Some (Inr (st2, l))"
    by blast
qed

lemma assign_ride_commit:
  assumes "i < length (drivers st)" "is_available (drivers st ! i)"
  shows "passenger_request_queue (assign_ride st i p rt d) = passenger_request_queue st"
    and "drivers (assign_ride st i p rt d) =
           (drivers st)[i := (drivers st ! i)\<lparr>is_available := False, current_passenger := Some p,
                                             current_route := Some rt\<rparr>]"
    and "graph (assign_ride st i p rt d) = graph st"
    and "location_mapping (assign_ride st i p rt d) = location_mapping st"
  using assms by (simp_all add: assign_ride_def)

text \<open>
  C6. \<^verbatim>\<open>assign_ride\<close> on an available driver sets the availability to False and attaches
  the request and the route to the driver record, leaving every other driver and the queue
  as they are; on a driver that is not available it leaves all drivers unchanged and appends
  the request to the queue. It has no failing branch.
\<close>

theorem assign_ride_commit_or_requeue:
  assumes "i < length (drivers st)"
  shows "(is_available (drivers st ! i) \<longrightarrow>
            \<not> is_available (drivers (assign_ride st i p rt d) ! i) \<and>
            current_passenger (drivers (assign_ride st i p rt d) ! i) = Some p \<and>
            current_route (drivers (assign_ride st i p rt d) ! i) = Some rt \<and>
            (\<forall>j. j \<noteq> i \<longrightarrow> drivers (assign_ride st i p rt d) ! j = drivers st ! j) \<and>
            passenger_request_queue (assign_ride st i p rt d) = passenger_request_queue st) \<and>
         (\<not> is_available (drivers st ! i) \<longrightarrow>
            drivers (assign_ride st i p rt d) = drivers st \<and>
            passenger_request_queue (assign_ride st i p rt d) = passenger_request_queue st @ [p])"
  using assms by (simp add: assign_ride_def handle_unavailable_driver_def)

text \<open>
  C8. A request whose canceled flag is set when it is dequeued is dropped: the cycle returns
  the state with the request removed from the queue and nothing else changed, so no driver
  is assigned and the request is not enqueued again.
\<close>

theorem canceled_request_dropped:
  assumes "passenger_request_queue st = r # q" and "is_canceled r"
  shows "dispatch_cycle np st = Some (Inr (st\<lparr>passenger_request_queue := q\<rparr>))"
  using assms by (simp add: dispatch_cycle_def)

text \<open>
  A cycle on a request that is not canceled, whose distance and route computations return:
  the state it returns, field by field.
\<close>

lemma dispatch_cycle_fields:
  assumes q: "passenger_request_queue st = r # q" and nc: "\<not> is_canceled r"
    and comp: "cycle_computes np st r"
  shows "\<exists>st'. dispatch_cycle np st = Some (Inr st') \<and>
           graph st' = graph st \<and> location_mapping st' = location_mapping st \<and>
           passenger_request_queue st' =
             q @ replicate (length (filter (unroutable st (pickup_node st r)) (candidates st))) r
               @ (if \<exists>i\<in>set (candidates st). routable st (pickup_node st r) i then [] else [r]) \<and>
           (if \<exists>i\<in>set (candidates st). routable st (pickup_node st r) i
            then \<exists>b\<in>set (candidates st). \<exists>rt.
                   routable st (pickup_node st r) b \<and>
                   (\<forall>j\<in>set (candidates st). routable st (pickup_node st r) j \<longrightarrow>
                      pickup_eta np st r b \<le> pickup_eta np st r j \<and>
                      (pickup_eta np st r j = pickup_eta np st r b \<longrightarrow>
                         pickup_distance np st r b \<le> pickup_distance np st r j)) \<and>
                   drivers st' = (drivers st)
                     [b := (drivers st ! b)\<lparr>is_available := False, current_passenger := Some r,
                                             current_route := Some rt\<rparr>]
            else drivers st' = drivers st)"
proof -
  from cycle_computes_match(1)[OF comp]
  have f: "find_available_drivers np st (pickup_address r) = Inr (candidates st)" .
  from cycle_computes_match(2)[OF comp, of q] obtain st2 l where
    m: "match_drivers np r (pickup_node st r) (candidates st)
          (st\<lparr>passenger_request_queue := q\<rparr>, init_locals) = Some (Inr (st2, l))"
    by blast
  note mc = match_candidates[OF m]
  note live = dispatch_cycle_live[OF q nc f m]
  show ?thesis
  proof (cases "best_driver l")
    case None
    with mc(3) have no: "\<not> (\<exists>i\<in>set (candidates st). routable st (pickup_node st r) i)"
      by (auto simp: best_ok_def)
    from live None have "dispatch_cycle np st = Some (Inr (handle_unavailable_driver st2 r))"
      by simp
    with no mc show ?thesis by (simp add: handle_unavailable_driver_def)
  next
    case (Some b)
    with mc(3) have bin: "b \<in> set (candidates st)" and bro: "routable st (pickup_node st r) b"
      and bmin: "\<forall>j\<in>set (candidates st). routable st (pickup_node st r) j \<longrightarrow>
              pickup_eta np st r b \<le> pickup_eta np st r j \<and>
              (pickup_eta np st r j = pickup_eta np st r b \<longrightarrow>
                 pickup_distance np st r b \<le> pickup_distance np st r j)"
      by (auto simp: best_ok_def)
    from bin mc(1) have bl: "b < length (drivers st2)" and ba: "is_available (drivers st2 ! b)"
      by (simp_all add: candidates_available)
    let ?st' = "assign_ride st2 b r (the (optimal_route l)) (best_distance l)"
    from live Some have c: "dispatch_cycle np st = Some (Inr ?st')" by simp
    have ex: "\<exists>i\<in>set (candidates st). routable st (pickup_node st r) i"
      using bin bro by blast
    from assign_ride_commit[OF bl ba] mc
    have "graph ?st' = graph st" "location_mapping ?st' = location_mapping st"
      "passenger_request_queue ?st' =
         q @ replicate (length (filter (unroutable st (pickup_node st r)) (candidates st))) r"
      "drivers ?st' = (drivers st)
                     [b := (drivers st ! b)\<lparr>is_available := False, current_passenger := Some r,
                                             current_route := Some (the (optimal_route l))\<rparr>]"
      by simp_all
    with c ex bin bro bmin show ?thesis by auto
  qed
qed


text \<open>
  C10. A cycle on a request that is not canceled appends the request to the queue once for
  each candidate whose route is empty, and once more when no candidate is routable; when some
  candidate is routable the same cycle also commits the request to a driver.
\<close>

theorem requeue_per_unroutable_candidate:
  assumes q: "passenger_request_queue st = r # q" and nc: "\<not> is_canceled r"
    and c: "dispatch_cycle np st = Some (Inr st')"
  shows "passenger_request_queue st' =
           q @ replicate (length (filter (unroutable st (pickup_node st r)) (candidates st))) r
             @ (if \<exists>i\<in>set (candidates st). routable st (pickup_node st r) i then [] else [r])
         \<and> ((\<exists>i\<in>set (candidates st). routable st (pickup_node st r) i) \<longrightarrow>
              (\<exists>b\<in>set (candidates st). current_passenger (drivers st' ! b) = Some r))"
proof -
  from dispatch_cycle_match[OF q nc c] obtain st2 l where
    f: "find_available_drivers np st (pickup_address r) = Inr (candidates st)"
    and m: "match_drivers np r (pickup_node st r) (candidates st)
          (st\<lparr>passenger_request_queue := q\<rparr>, init_locals) = Some (Inr (st2, l))"
    by blast
  note mc = match_candidates[OF m]
  from dispatch_cycle_live[OF q nc f m] c
  have st': "st' = (case best_driver l of
                        None \<Rightarrow> handle_unavailable_driver st2 r
                      | Some b \<Rightarrow> assign_ride st2 b r (the (optimal_route l)) (best_distance l))"
    by simp
  show ?thesis
  proof (cases "best_driver l")
    case None
    with mc(3) have "\<not> (\<exists>i\<in>set (candidates st). routable st (pickup_node st r) i)"
      by (auto simp: best_ok_def)
    with None st' mc(2) show ?thesis by (simp add: handle_unavailable_driver_def)
  next
    case (Some b)
    with mc(3) have bin: "b \<in> set (candidates st)" and bro: "routable st (pickup_node st r) b"
      by (auto simp: best_ok_def)
    from bin mc(1) have bl: "b < length (drivers st2)" and ba: "is_available (drivers st2 ! b)"
      by (simp_all add: candidates_available)
    from assign_ride_commit[OF bl ba] Some st' mc(2) bl
    have "passenger_request_queue st' =
           q @ replicate (length (filter (unroutable st (pickup_node st r)) (candidates st))) r"
      and "current_passenger (drivers st' ! b) = Some r"
      by simp_all
    with bin bro show ?thesis by auto
  qed
qed

lemma committed_route_of_last_candidate:
  assumes q: "passenger_request_queue st = r # q" and nc: "\<not> is_canceled r"
    and c: "dispatch_cycle np st = Some (Inr st')"
    and ex: "\<exists>i\<in>set (candidates st). routable st (pickup_node st r) i"
  shows "\<exists>b\<in>set (candidates st). \<exists>rt.
           current_passenger (drivers st' ! b) = Some r \<and>
           current_route (drivers st' ! b) = Some rt \<and>
           candidate_route st (pickup_node st r) (last (candidates st)) = Some (Inr rt)"
proof -
  from dispatch_cycle_match[OF q nc c] obtain st2 l where
    f: "find_available_drivers np st (pickup_address r) = Inr (candidates st)"
    and m: "match_drivers np r (pickup_node st r) (candidates st)
          (st\<lparr>passenger_request_queue := q\<rparr>, init_locals) = Some (Inr (st2, l))"
    by blast
  note mc = match_candidates[OF m]
  from ex have ne: "candidates st \<noteq> []" by auto
  from match_drivers_last_route[OF m ne] obtain rt where
    rt: "optimal_route l = Some rt"
    and last: "candidate_route st (pickup_node st r) (last (candidates st)) = Some (Inr rt)"
    by auto
  from mc(3) ex obtain b where b: "best_driver l = Some b" and bin: "b \<in> set (candidates st)"
    by (auto simp: best_ok_def split: option.splits)
  from bin mc(1) have bl: "b < length (drivers st2)" and ba: "is_available (drivers st2 ! b)"
    by (simp_all add: candidates_available)
  from dispatch_cycle_live[OF q nc f m] c b rt
  have "st' = assign_ride st2 b r rt (best_distance l)" by simp
  with assign_ride_commit(2)[OF bl ba] bl
  have "current_passenger (drivers st' ! b) = Some r" "current_route (drivers st' ! b) = Some rt"
    by simp_all
  with bin last show ?thesis by blast
qed

section \<open>Draining the queue\<close>

lemma narrows_refl: "narrows st st"
  by (simp add: narrows_def)

lemma narrows_queue_upd: "narrows st (st\<lparr>passenger_request_queue := q\<rparr>)"
  by (simp add: narrows_def)

lemma narrows_routes:
  assumes "narrows st st'"
  shows "candidate_route st' pk i = candidate_route st pk i"
    and "routable st' pk i = routable st pk i"
    and "route_returns st' pk i = route_returns st pk i"
    and "pickup_node st' r = pickup_node st r"
    and "distance_returns np st' r i = distance_returns np st r i"
proof -
  from assms show cr: "candidate_route st' pk i = candidate_route st pk i"
    by (simp add: narrows_def candidate_route_def)
  then show "routable st' pk i = routable st pk i"
    and "route_returns st' pk i = route_returns st pk i"
    by (simp_all add: routable_def route_returns_def)
  from assms show "pickup_node st' r = pickup_node st r"
    by (simp add: narrows_def pickup_node_def)
  from assms show "distance_returns np st' r i = distance_returns np st r i"
    by (simp add: narrows_def distance_returns_def)
qed

lemma narrows_hopeless: "narrows st st' \<Longrightarrow> hopeless st r \<Longrightarrow> hopeless st' r"
  using narrows_routes(2,4)[of st st'] by (auto simp: hopeless_def narrows_def)

lemma narrows_computes: "narrows st st' \<Longrightarrow> cycle_computes np st r \<Longrightarrow> cycle_computes np st' r"
  using narrows_routes(3,4,5)[of st st'] by (auto simp: cycle_computes_def narrows_def)

lemma distinct_candidates: "distinct (candidates st)"
  by (simp add: candidates_def)

lemma candidates_commit:
  assumes b: "b \<in> set (candidates st)"
    and d': "drivers st' = (drivers st)[b := (drivers st ! b)\<lparr>is_available := False,
                 current_passenger := Some r, current_route := Some rt\<rparr>]"
  shows "set (candidates st') = set (candidates st) - {b}"
    and "length (candidates st') < length (candidates st)"
proof -
  from b have bl: "b < length (drivers st)" by (simp add: candidates_available)
  show eq: "set (candidates st') = set (candidates st) - {b}"
  proof (rule set_eqI)
    fix i
    show "i \<in> set (candidates st') \<longleftrightarrow> i \<in> set (candidates st) - {b}"
      using bl by (cases "i = b") (auto simp: candidates_available d')
  qed
  have "card (set (candidates st')) < card (set (candidates st))"
    unfolding eq using b by (intro psubset_card_mono) auto
  then show "length (candidates st') < length (candidates st)"
    by (simp add: distinct_card distinct_candidates)
qed

lemma narrows_commit:
  assumes b: "b \<in> set (candidates st)"
    and g: "graph st' = graph st" and lm: "location_mapping st' = location_mapping st"
    and d': "drivers st' = (drivers st)[b := (drivers st ! b)\<lparr>is_available := False,
                 current_passenger := Some r, current_route := Some rt\<rparr>]"
  shows "narrows st st'"
proof -
  from b have bl: "b < length (drivers st)" by (simp add: candidates_available)
  have "location (drivers st' ! i) = location (drivers st ! i)" for i
    using bl by (cases "i = b") (simp_all add: d')
  with candidates_commit(1)[OF b d'] g lm show ?thesis
    by (auto simp: narrows_def)
qed

lemma narrows_same_drivers:
  assumes "graph st' = graph st" "location_mapping st' = location_mapping st"
    "drivers st' = drivers st"
  shows "narrows st st'"
  using assms by (simp add: narrows_def candidates_def)

text \<open>One cycle of the drain, when the computations of every queued request return.\<close>

lemma cycle_step:
  assumes q: "passenger_request_queue st = r # q" and ac: "all_compute np st"
  shows "\<exists>st'. dispatch_cycle np st = Some (Inr st') \<and> narrows st st' \<and>
           set q \<subseteq> set (passenger_request_queue st') \<and>
           set (passenger_request_queue st') \<subseteq> set (r # q) \<and>
           (hopeless st r \<longrightarrow> r \<in> set (passenger_request_queue st')) \<and>
           (\<not> hopeless st r \<longrightarrow>
              length (candidates st') < length (candidates st) \<or>
              (length (candidates st') = length (candidates st) \<and>
               length (passenger_request_queue st') < length (passenger_request_queue st)))"
proof (cases "is_canceled r")
  case True
  with q have "dispatch_cycle np st = Some (Inr (st\<lparr>passenger_request_queue := q\<rparr>))"
    by (simp add: dispatch_cycle_def)
  moreover from True have "\<not> hopeless st r" by (simp add: hopeless_def)
  ultimately show ?thesis using q narrows_queue_upd[of st q] by auto
next
  case False
  with q ac have comp: "cycle_computes np st r" by (simp add: all_compute_def)
  let ?ex = "\<exists>i\<in>set (candidates st). routable st (pickup_node st r) i"
  from dispatch_cycle_fields[OF q False comp] obtain st' where
    c: "dispatch_cycle np st = Some (Inr st')"
    and g: "graph st' = graph st" and lm: "location_mapping st' = location_mapping st"
    and q': "passenger_request_queue st' =
             q @ replicate (length (filter (unroutable st (pickup_node st r)) (candidates st))) r
               @ (if ?ex then [] else [r])"
    and d: "if ?ex
            then \<exists>b\<in>set (candidates st). \<exists>rt.
                   routable st (pickup_node st r) b \<and>
                   (\<forall>j\<in>set (candidates st). routable st (pickup_node st r) j \<longrightarrow>
                      pickup_eta np st r b \<le> pickup_eta np st r j \<and>
                      (pickup_eta np st r j = pickup_eta np st r b \<longrightarrow>
                         pickup_distance np st r b \<le> pickup_distance np st r j)) \<and>
                   drivers st' = (drivers st)
                     [b := (drivers st ! b)\<lparr>is_available := False, current_passenger := Some r,
                                             current_route := Some rt\<rparr>]
            else drivers st' = drivers st"
    by blast
  from q' have sub1: "set q \<subseteq> set (passenger_request_queue st')" by auto
  from q' have sub2: "set (passenger_request_queue st') \<subseteq> set (r # q)" by auto
  show ?thesis
  proof (cases ?ex)
    case True
    with d obtain b rt where b: "b \<in> set (candidates st)"
      and d': "drivers st' = (drivers st)
                     [b := (drivers st ! b)\<lparr>is_available := False, current_passenger := Some r,
                                             current_route := Some rt\<rparr>]"
      by auto
    from True have nh: "\<not> hopeless st r" by (auto simp: hopeless_def)
    from narrows_commit[OF b g lm d'] candidates_commit(2)[OF b d'] c sub1 sub2 nh
    show ?thesis by blast
  next
    case no: False
    with d have d': "drivers st' = drivers st" by simp
    from no q' have "r \<in> set (passenger_request_queue st')" by simp
    moreover from no False have "hopeless st r" by (auto simp: hopeless_def)
    ultimately show ?thesis
      using narrows_same_drivers[OF g lm d'] c sub1 sub2 by blast
  qed
qed

lemma cycle_step_invariants:
  assumes q: "passenger_request_queue st \<noteq> []" and ac: "all_compute np st"
    and c: "dispatch_cycle np st = Some (Inr st')"
  shows "all_compute np st'" and "has_hopeless st \<Longrightarrow> has_hopeless st'"
proof -
  from q obtain r q0 where q0: "passenger_request_queue st = r # q0"
    by (cases "passenger_request_queue st") auto
  from cycle_step[OF q0 ac] c have n: "narrows st st'"
    and sub1: "set q0 \<subseteq> set (passenger_request_queue st')"
    and sub2: "set (passenger_request_queue st') \<subseteq> set (r # q0)"
    and h: "hopeless st r \<longrightarrow> r \<in> set (passenger_request_queue st')"
    by auto
  show "all_compute np st'"
    unfolding all_compute_def
  proof (intro ballI impI)
    fix r' assume "r' \<in> set (passenger_request_queue st')" "\<not> is_canceled r'"
    with sub2 q0 ac have "cycle_computes np st r'" by (auto simp: all_compute_def)
    with n show "cycle_computes np st' r'" by (rule narrows_computes)
  qed
  show "has_hopeless st'" if "has_hopeless st"
  proof -
    from that q0 obtain r0 where r0: "r0 \<in> set (r # q0)" and h0: "hopeless st r0"
      by (auto simp: has_hopeless_def)
    from r0 h0 h sub1 have "r0 \<in> set (passenger_request_queue st')" by auto
    moreover from n h0 have "hopeless st' r0" by (rule narrows_hopeless)
    ultimately show ?thesis by (auto simp: has_hopeless_def)
  qed
qed

lemma has_hopeless_queue: "has_hopeless st \<Longrightarrow> passenger_request_queue st \<noteq> []"
  by (auto simp: has_hopeless_def)

lemma returns_not_hopeless:
  assumes "process_passenger_requests np st = Some res"
  shows "\<not> (has_hopeless st \<and> all_compute np st)"
  using assms
proof (rule process_passenger_requests.raw_induct
         [rotated, where P = "\<lambda>np st res. \<not> (has_hopeless st \<and> all_compute np st)"])
  fix f :: "numerics \<Rightarrow> system \<Rightarrow> (error + system) option"
    and np' st' res'
  assume IH: "\<And>a b y. f a b = Some y \<Longrightarrow> \<not> (has_hopeless b \<and> all_compute a b)"
    and body: "(if passenger_request_queue st' = [] then Some (Inr st')
                else case dispatch_cycle np' st' of
                       None \<Rightarrow> None
                     | Some (Inl err) \<Rightarrow> Some (Inl err)
                     | Some (Inr st'') \<Rightarrow> f np' st'') = Some res'"
  show "\<not> (has_hopeless st' \<and> all_compute np' st')"
  proof
    assume s: "has_hopeless st' \<and> all_compute np' st'"
    then have ne: "passenger_request_queue st' \<noteq> []" by (simp add: has_hopeless_queue)
    then obtain r q where q: "passenger_request_queue st' = r # q"
      by (cases "passenger_request_queue st'") auto
    from cycle_step[OF q] s obtain st2 where
      c: "dispatch_cycle np' st' = Some (Inr st2)" by blast
    from cycle_step_invariants[OF ne _ c] s have "has_hopeless st2 \<and> all_compute np' st2"
      by simp
    moreover from body ne c have "f np' st2 = Some res'" by simp
    ultimately show False using IH by blast
  qed
qed

lemma hopeless_diverges:
  "has_hopeless st \<Longrightarrow> all_compute np st \<Longrightarrow> process_passenger_requests np st = None"
  using returns_not_hopeless[of np st]
  by (cases "process_passenger_requests np st") auto

lemma doomed_diverges:
  "doomed np st \<Longrightarrow> all_compute np st \<Longrightarrow> process_passenger_requests np st = None"
proof (induction rule: doomed.induct)
  case (now st)
  then show ?case by (simp add: hopeless_diverges)
next
  case (later st st')
  from cycle_step_invariants(1)[OF later.hyps(1) later.prems later.hyps(2)]
  have "all_compute np st'" .
  with later.IH have "process_passenger_requests np st' = None" by simp
  with later.hyps show ?case
    by (subst process_passenger_requests.simps) simp
qed

lemma not_doomed_returns:
  "all_compute np st \<Longrightarrow> \<not> doomed np st \<Longrightarrow>
   \<exists>st'. process_passenger_requests np st = Some (Inr st') \<and> passenger_request_queue st' = []"
proof (induction st rule: wf_induct_rule
         [OF wf_measures[of "[\<lambda>st. length (candidates st),
                              \<lambda>st. length (passenger_request_queue st)]"]])
  case (1 st)
  show ?case
  proof (cases "passenger_request_queue st")
    case Nil
    then show ?thesis by (simp add: process_passenger_requests.simps)
  next
    case (Cons r q)
    from "1.prems"(2) have nh: "\<not> has_hopeless st" by (auto intro: doomed.now)
    with Cons have "\<not> hopeless st r" by (auto simp: has_hopeless_def)
    with cycle_step[OF Cons "1.prems"(1)] obtain st1 where
      c: "dispatch_cycle np st = Some (Inr st1)"
      and less: "length (candidates st1) < length (candidates st) \<or>
              (length (candidates st1) = length (candidates st) \<and>
               length (passenger_request_queue st1) < length (passenger_request_queue st))"
      by blast
    from Cons have ne: "passenger_request_queue st \<noteq> []" by simp
    from cycle_step_invariants(1)[OF ne "1.prems"(1) c] have ac1: "all_compute np st1" .
    from "1.prems"(2) ne c have nd1: "\<not> doomed np st1" by (auto intro: doomed.later)
    from less have "(st1, st) \<in> measures [\<lambda>st. length (candidates st),
                              \<lambda>st. length (passenger_request_queue st)]"
      by auto
    from "1.IH"[OF this ac1 nd1] obtain st' where
      "process_passenger_requests np st1 = Some (Inr st')" "passenger_request_queue st' = []"
      by blast
    with ne c show ?thesis
      by (subst process_passenger_requests.simps) simp
  qed
qed

text \<open>
  C4. When the distance and route computations of the queued requests return,
  \<^verbatim>\<open>process_passenger_requests\<close> returns, with an empty queue, unless its cycles reach a
  state whose queue holds a request that is not canceled and has no routable available
  driver; from such a state on the request is put back on each of its cycles and the call
  does not return.
\<close>

theorem drain_returns_unless_doomed:
  assumes "all_compute np st"
  shows "(doomed np st \<longrightarrow> process_passenger_requests np st = None) \<and>
         (\<not> doomed np st \<longrightarrow>
            (\<exists>st'. process_passenger_requests np st = Some (Inr st') \<and>
                   passenger_request_queue st' = []))"
  using assms doomed_diverges[of np st] not_doomed_returns[of np st] by blast

section \<open>Routes on the sample graphs\<close>

lemmas route_eval =
  calculate_optimal_route_def route_search.simps reconstruct_path.simps
  heappop_def heappush_def entry_less_def node_truthy_def graph_get_def

text \<open>
  C3. On the sample graph the shortest path from A to D is the sequence A, B, C, D of total
  weight 4; the paths A, C, D and A, B, D weigh 5 and 6.
\<close>

theorem sample_route_A_D:
  "calculate_optimal_route sample_graph (Some ''A'') (Some ''D'')
     = Some (Inr (Some [Some ''A'', Some ''B'', Some ''C'', Some ''D'']))
   \<and> path_weight sample_graph [''A'', ''B'', ''C'', ''D''] = Some 4
   \<and> path_weight sample_graph [''A'', ''C'', ''D''] = Some 5
   \<and> path_weight sample_graph [''A'', ''B'', ''D''] = Some 6"
proof -
  have "calculate_optimal_route sample_graph (Some ''A'') (Some ''D'')
     = Some (Inr (Some [Some ''A'', Some ''B'', Some ''C'', Some ''D'']))"
    by (simp add: route_eval sample_graph_def)
  moreover have "path_weight sample_graph [''A'', ''B'', ''C'', ''D''] = Some 4"
    by (simp add: sample_graph_def)
  moreover have "path_weight sample_graph [''A'', ''C'', ''D''] = Some 5"
    by (simp add: sample_graph_def)
  moreover have "path_weight sample_graph [''A'', ''B'', ''D''] = Some 6"
    by (simp add: sample_graph_def)
  ultimately show ?thesis by simp
qed

lemma sample_nodes:
  "get_coordinates sample_location_mapping paris = Some ''A''"
  "get_coordinates sample_location_mapping new_york = Some ''B''"
  "get_coordinates sample_location_mapping london = Some ''C''"
  "get_coordinates sample_location_mapping berlin = Some ''D''"
  "get_coordinates sample_location_mapping (0, 0) = None"
  by (simp_all add: sample_location_mapping_def paris_def new_york_def london_def berlin_def)

lemma sample_route_C_A:
  "calculate_optimal_route sample_graph (Some ''C'') (Some ''A'')
     = Some (Inr (Some [Some ''C'', Some ''B'', Some ''A'']))"
  by (simp add: route_eval sample_graph_def)

lemma sample_route_B_A:
  "calculate_optimal_route sample_graph (Some ''B'') (Some ''A'')
     = Some (Inr (Some [Some ''B'', Some ''A'']))"
  by (simp add: route_eval sample_graph_def)

lemma sample_route_D_A:
  "calculate_optimal_route sample_graph (Some ''D'') (Some ''A'')
     = Some (Inr (Some [Some ''D'', Some ''C'', Some ''B'', Some ''A'']))"
  by (simp add: route_eval sample_graph_def)

lemma sample_route_unmapped_start:
  "calculate_optimal_route sample_graph None (Some ''A'') = Some (Inl KeyError)"
  by (simp add: route_eval sample_graph_def)

lemma sample_route_unknown_start:
  "calculate_optimal_route sample_graph (Some ''Z'') (Some ''A'') = Some (Inl KeyError)"
  by (simp add: route_eval sample_graph_def)

lemma sample_route_unknown_end:
  "calculate_optimal_route sample_graph (Some ''A'') (Some ''Z'') = Some (Inr None)"
  by (simp add: route_eval sample_graph_def)

lemma sample_route_unmapped_end:
  "calculate_optimal_route sample_graph (Some ''A'') None = Some (Inr None)"
  "calculate_optimal_route sample_graph (Some ''B'') None = Some (Inr None)"
  "calculate_optimal_route sample_graph (Some ''C'') None = Some (Inr None)"
  by (simp_all add: route_eval sample_graph_def)

lemma sample_route_unmapped_both:
  "calculate_optimal_route sample_graph None None = Some (Inr (Some []))"
  by (simp add: route_eval sample_graph_def)

lemma sample_route_unknown_both:
  "calculate_optimal_route sample_graph (Some ''Z'') (Some ''Z'') = Some (Inl KeyError)"
  by (simp add: route_eval sample_graph_def)

lemma island_route_C_A:
  "calculate_optimal_route island_graph (Some ''C'') (Some ''A'') = Some (Inr None)"
  by (simp add: route_eval island_graph_def)

lemma island_route_B_A:
  "calculate_optimal_route island_graph (Some ''B'') (Some ''A'')
     = Some (Inr (Some [Some ''B'', Some ''A'']))"
  by (simp add: route_eval island_graph_def)

section \<open>Dispatch cycles of the scenarios\<close>

lemma john_fields [simp]:
  "pickup_address john = paris" "\<not> is_canceled john"
  "pickup_address lost_john = (0, 0)" "\<not> is_canceled lost_john"
  "pickup_address canceled_john = paris" "is_canceled canceled_john"
  by (simp_all add: john_def lost_john_def canceled_john_def mk_request_def paris_def)

lemma driver_fields [simp]:
  "location alice = london" "is_available alice"
  "location bob = new_york" "is_available bob"
  "location carol = london" "is_available carol"
  "location dave = berlin" "is_available dave"
  "location eve = (0, 0)" "is_available eve"
  by (simp_all add: alice_def bob_def carol_def dave_def eve_def mk_driver_def)

lemma sample_system_fields [simp]:
  "passenger_request_queue (sample_system q ds) = q" "drivers (sample_system q ds) = ds"
  "graph (sample_system q ds) = sample_graph"
  "location_mapping (sample_system q ds) = sample_location_mapping"
  by (simp_all add: sample_system_def)

lemma scenario_fields [simp]:
  "passenger_request_queue swapped_system = [john]" "drivers swapped_system = [alice, bob]"
  "graph swapped_system = sample_graph"
  "location_mapping swapped_system = sample_location_mapping"
  "passenger_request_queue unmapped_system = [john]" "drivers unmapped_system = [eve]"
  "graph unmapped_system = sample_graph"
  "location_mapping unmapped_system = sample_location_mapping"
  "passenger_request_queue eve_system = [john]" "drivers eve_system = [alice, eve]"
  "graph eve_system = sample_graph"
  "location_mapping eve_system = sample_location_mapping"
  "passenger_request_queue tie_system = [john]" "drivers tie_system = [dave, alice]"
  "graph tie_system = sample_graph"
  "location_mapping tie_system = sample_location_mapping"
  "passenger_request_queue lost_system = [lost_john]" "drivers lost_system = [alice, bob]"
  "graph lost_system = sample_graph"
  "location_mapping lost_system = sample_location_mapping"
  "passenger_request_queue busy_system = []"
  "drivers busy_system = [mk_driver ''Bob'' new_york False]"
  "passenger_request_queue canceled_system = [canceled_john]"
  "drivers canceled_system = [alice, bob]"
  by (simp_all add: swapped_system_def unmapped_system_def eve_system_def tie_system_def
      lost_system_def busy_system_def canceled_system_def)

lemma island_fields [simp]:
  "passenger_request_queue island_system = [john]" "drivers island_system = [alice, carol, bob]"
  "graph island_system = island_graph" "location_mapping island_system = sample_location_mapping"
  by (simp_all add: island_system_def)

lemma island_after_fields [simp]:
  "passenger_request_queue island_after = [john, john]"
  "drivers island_after =
     [alice, carol, bob\<lparr>is_available := False, current_passenger := Some john,
                         current_route := Some (Some [Some ''B'', Some ''A''])\<rparr>]"
  "graph island_after = island_graph" "location_mapping island_after = sample_location_mapping"
  by (simp_all add: island_after_def)

lemma numerics_fields [simp]:
  "calculate_distance grid_numerics a b = Inr (grid_distance a b)"
  "float_div grid_numerics x y = x / y" "float_mul grid_numerics x y = x * y"
  "calculate_distance coarse_numerics a b = Inr (grid_distance a b)"
  "float_div coarse_numerics x y = x / y"
  "float_mul coarse_numerics x y = 100 * real_of_int \<lfloor>x * y / 100\<rfloor>"
  by (simp_all add: grid_numerics_def coarse_numerics_def)

lemma grid_values:
  "grid_distance london paris = 5.1308"
  "grid_distance new_york paris = 84.502"
  "grid_distance berlin paris = 14.7162"
  by (simp_all add: grid_distance_def london_def paris_def new_york_def berlin_def)

lemma eta_values:
  "calculate_estimated_arrival_time grid_numerics d = d / 30 * 60"
  "calculate_estimated_arrival_time coarse_numerics d = 100 * real_of_int \<lfloor>d / 30 * 60 / 100\<rfloor>"
  by (simp_all add: calculate_estimated_arrival_time_def AVERAGE_SPEED_def)

lemma coarse_eta_values:
  "calculate_estimated_arrival_time coarse_numerics (grid_distance london paris) = 0"
  "calculate_estimated_arrival_time coarse_numerics (grid_distance berlin paris) = 0"
  by (simp_all add: eta_values grid_values)

lemma distance_returns_sample [simp]:
  "distance_returns grid_numerics st r i" "distance_returns coarse_numerics st r i"
  by (simp_all add: distance_returns_def)

lemma candidates_lists:
  "drivers st = [a, b] \<Longrightarrow> is_available a \<Longrightarrow> is_available b \<Longrightarrow> candidates st = [0, Suc 0]"
  "drivers st = [a, b, c] \<Longrightarrow> is_available a \<Longrightarrow> is_available b \<Longrightarrow> is_available c \<Longrightarrow>
     candidates st = [0, Suc 0, 2]"
  "drivers st = [a, b, c] \<Longrightarrow> is_available a \<Longrightarrow> is_available b \<Longrightarrow> \<not> is_available c \<Longrightarrow>
     candidates st = [0, Suc 0]"
  "drivers st = [a] \<Longrightarrow> is_available a \<Longrightarrow> candidates st = [0]"
  by (simp_all add: candidates_def)

lemma scenario_candidates:
  "candidates swapped_system = [0, Suc 0]"
  "candidates island_system = [0, Suc 0, 2]"
  "candidates island_after = [0, Suc 0]"
  "candidates unmapped_system = [0]"
  "candidates eve_system = [0, Suc 0]"
  "candidates tie_system = [0, Suc 0]"
  "candidates lost_system = [0, Suc 0]"
  by (simp_all add: candidates_lists)

lemma scenario_pickups:
  "pickup_node swapped_system john = Some ''A''"
  "pickup_node island_system john = Some ''A''"
  "pickup_node island_after john = Some ''A''"
  "pickup_node unmapped_system john = Some ''A''"
  "pickup_node eve_system john = Some ''A''"
  "pickup_node tie_system john = Some ''A''"
  "pickup_node lost_system lost_john = None"
  by (simp_all add: pickup_node_def sample_nodes)

lemma swapped_routes:
  "candidate_route swapped_system (Some ''A'') 0 = Some (Inr (Some [Some ''C'', Some ''B'', Some ''A'']))"
  "candidate_route swapped_system (Some ''A'') (Suc 0) = Some (Inr (Some [Some ''B'', Some ''A'']))"
  by (simp_all add: candidate_route_def sample_nodes sample_route_C_A sample_route_B_A)

lemma island_routes:
  "candidate_route island_system (Some ''A'') 0 = Some (Inr None)"
  "candidate_route island_system (Some ''A'') (Suc 0) = Some (Inr None)"
  "candidate_route island_system (Some ''A'') 2 = Some (Inr (Some [Some ''B'', Some ''A'']))"
  "candidate_route island_after (Some ''A'') 0 = Some (Inr None)"
  "candidate_route island_after (Some ''A'') (Suc 0) = Some (Inr None)"
  by (simp_all add: candidate_route_def sample_nodes island_route_C_A island_route_B_A)

lemma eve_routes:
  "candidate_route eve_system (Some ''A'') 0 = Some (Inr (Some [Some ''C'', Some ''B'', Some ''A'']))"
  "candidate_route eve_system (Some ''A'') (Suc 0) = Some (Inl KeyError)"
  "candidate_route unmapped_system (Some ''A'') 0 = Some (Inl KeyError)"
  by (simp_all add: candidate_route_def sample_nodes sample_route_C_A sample_route_unmapped_start)

lemma tie_routes:
  "candidate_route tie_system (Some ''A'') 0
     = Some (Inr (Some [Some ''D'', Some ''C'', Some ''B'', Some ''A'']))"
  "candidate_route tie_system (Some ''A'') (Suc 0)
     = Some (Inr (Some [Some ''C'', Some ''B'', Some ''A'']))"
  by (simp_all add: candidate_route_def sample_nodes sample_route_C_A sample_route_D_A)

lemma lost_routes:
  "candidate_route lost_system None 0 = Some (Inr None)"
  "candidate_route lost_system None (Suc 0) = Some (Inr None)"
  by (simp_all add: candidate_route_def sample_nodes sample_route_unmapped_end)

lemma finds:
  "find_available_drivers grid_numerics st (pickup_address (r::passenger_request)) = Inr (candidates st)"
  "find_available_drivers coarse_numerics st (pickup_address (r::passenger_request)) = Inr (candidates st)"
proof -
  show "find_available_drivers grid_numerics st (pickup_address (r::passenger_request)) = Inr (candidates st)"
    by (rule find_available_drivers_returns) simp
  show "find_available_drivers coarse_numerics st (pickup_address (r::passenger_request)) = Inr (candidates st)"
    by (rule find_available_drivers_returns) simp
qed

lemma swapped_match:
  "match_drivers grid_numerics john (Some ''A'') [0, Suc 0]
           (swapped_system\<lparr>passenger_request_queue := []\<rparr>, init_locals)
         = Some (Inr (swapped_system\<lparr>passenger_request_queue := []\<rparr>,
              \<lparr>best_driver = Some 0, best_distance = Fin 5.1308,
               best_estimated_arrival_time = Fin (5.1308 / 30 * 60),
               optimal_route = Some (Some [Some ''B'', Some ''A''])\<rparr>))"
  by (simp add: match_drivers_Cons swapped_routes route_truthy_def is_better_def init_locals_def
      grid_values eta_values)

lemma swapped_cycle:
  "dispatch_cycle grid_numerics swapped_system
         = Some (Inr (swapped_system
              \<lparr>passenger_request_queue := [],
               drivers := [alice\<lparr>is_available := False, current_passenger := Some john,
                                 current_route := Some (Some [Some ''B'', Some ''A''])\<rparr>, bob]\<rparr>))"
proof -
  have q: "passenger_request_queue swapped_system = [john]" by simp
  have "dispatch_cycle grid_numerics swapped_system =
           Some (Inr (assign_ride (swapped_system\<lparr>passenger_request_queue := []\<rparr>) 0 john
                        (Some [Some ''B'', Some ''A'']) (Fin 5.1308)))"
    using dispatch_cycle_live[OF q _ finds(1), unfolded scenario_pickups scenario_candidates,
        OF _ swapped_match]
    by simp
  then show ?thesis by (simp add: assign_ride_def)
qed

lemma island_match:
  "match_drivers grid_numerics john (Some ''A'') [0, Suc 0, 2]
           (island_system\<lparr>passenger_request_queue := []\<rparr>, init_locals)
         = Some (Inr (island_system\<lparr>passenger_request_queue := [john, john]\<rparr>,
              \<lparr>best_driver = Some 2, best_distance = Fin 84.502,
               best_estimated_arrival_time = Fin (84.502 / 30 * 60),
               optimal_route = Some (Some [Some ''B'', Some ''A''])\<rparr>))"
  by (simp add: match_drivers_Cons island_routes route_truthy_def is_better_def init_locals_def
      grid_values eta_values handle_unavailable_driver_def)

lemma island_cycle:
  "dispatch_cycle grid_numerics island_system = Some (Inr island_after)"
proof -
  have q: "passenger_request_queue island_system = [john]" by simp
  have "dispatch_cycle grid_numerics island_system =
           Some (Inr (assign_ride (island_system\<lparr>passenger_request_queue := [john, john]\<rparr>) 2 john
                        (Some [Some ''B'', Some ''A'']) (Fin 84.502)))"
    using dispatch_cycle_live[OF q _ finds(1), unfolded scenario_pickups scenario_candidates,
        OF _ island_match]
    by simp
  then show ?thesis by (simp add: assign_ride_def island_after_def)
qed

lemma tie_match:
  "match_drivers coarse_numerics john (Some ''A'') [0, Suc 0]
           (tie_system\<lparr>passenger_request_queue := []\<rparr>, init_locals)
         = Some (Inr (tie_system\<lparr>passenger_request_queue := []\<rparr>,
              \<lparr>best_driver = Some (Suc 0), best_distance = Fin 5.1308,
               best_estimated_arrival_time = Fin 0,
               optimal_route = Some (Some [Some ''C'', Some ''B'', Some ''A''])\<rparr>))"
  by (simp add: match_drivers_Cons tie_routes route_truthy_def is_better_def init_locals_def
      grid_values eta_values)

lemma unmapped_cycle:
  "dispatch_cycle grid_numerics unmapped_system = Some (Inl KeyError)"
proof -
  have "find_available_drivers grid_numerics (unmapped_system\<lparr>passenger_request_queue := []\<rparr>)
          (pickup_address john) = Inr [0]"
    using finds(1)[of "unmapped_system\<lparr>passenger_request_queue := []\<rparr>" john]
    by (simp add: scenario_candidates)
  then show ?thesis
    using eve_routes(3) scenario_pickups(4)
    by (simp add: dispatch_cycle_def match_drivers_Cons pickup_node_def)
qed


section \<open>The committed route\<close>

text \<open>
  C1. With Alice (at node C) before Bob (at node B) in the registry and a pickup at node A,
  the cycle selects Alice, whose own route is C, B, A, and attaches to her the route B, A
  that was computed for Bob, the last candidate of the loop.
\<close>

theorem stale_route_committed:
  "dispatch_cycle grid_numerics swapped_system
     = Some (Inr (swapped_system
          \<lparr>passenger_request_queue := [],
           drivers := [alice\<lparr>is_available := False, current_passenger := Some john,
                             current_route := Some (Some [Some ''B'', Some ''A''])\<rparr>, bob]\<rparr>))
   \<and> candidate_route swapped_system (pickup_node swapped_system john) 0
       = Some (Inr (Some [Some ''C'', Some ''B'', Some ''A'']))
   \<and> candidate_route swapped_system (pickup_node swapped_system john) 1
       = Some (Inr (Some [Some ''B'', Some ''A'']))"
  using swapped_cycle swapped_routes scenario_pickups by simp

text \<open>
  C2. On the island graph one cycle leaves the request in the queue and, at the same time,
  attached to the driver it was committed to.
\<close>

theorem requeued_request_also_assigned:
  "dispatch_cycle grid_numerics island_system = Some (Inr island_after)
   \<and> john \<in> set (passenger_request_queue island_after)
   \<and> current_passenger (drivers island_after ! 2) = Some john
   \<and> \<not> is_available (drivers island_after ! 2)"
  using island_cycle by simp

text \<open>
  C5. On the sample graph, a start node that is \<^verbatim>\<open>None\<close> or not a key of the graph makes
  \<^verbatim>\<open>calculate_optimal_route\<close> raise KeyError; an end node that is not in the graph gives
  the result \<^verbatim>\<open>None\<close>.
\<close>

theorem unknown_start_raises:
  "calculate_optimal_route sample_graph None (Some ''A'') = Some (Inl KeyError)
   \<and> calculate_optimal_route sample_graph (Some ''Z'') (Some ''A'') = Some (Inl KeyError)
   \<and> calculate_optimal_route sample_graph (Some ''A'') (Some ''Z'') = Some (Inr None)
   \<and> calculate_optimal_route sample_graph (Some ''A'') None = Some (Inr None)"
  using sample_route_unmapped_start sample_route_unknown_start sample_route_unknown_end
    sample_route_unmapped_end(1) by simp

text \<open>
  C9. An available driver whose coordinate has no entry in the location mapping makes the
  dispatch cycle, and with it \<^verbatim>\<open>process_passenger_requests\<close>, raise KeyError.
\<close>

theorem unmapped_driver_raises:
  "dispatch_cycle grid_numerics unmapped_system = Some (Inl KeyError)
   \<and> process_passenger_requests grid_numerics unmapped_system = Some (Inl KeyError)"
proof -
  have c: "dispatch_cycle grid_numerics unmapped_system = Some (Inl KeyError)"
    by (rule unmapped_cycle)
  then have "process_passenger_requests grid_numerics unmapped_system = Some (Inl KeyError)"
    by (subst process_passenger_requests.simps) simp
  with c show ?thesis by simp
qed

section \<open>Draining the scenarios\<close>

lemma lost_unroutable:
  "unroutable lost_system (pickup_node lost_system lost_john) 0"
  "unroutable lost_system (pickup_node lost_system lost_john) (Suc 0)"
  "\<not> routable lost_system (pickup_node lost_system lost_john) 0"
  "\<not> routable lost_system (pickup_node lost_system lost_john) (Suc 0)"
  "route_returns lost_system (pickup_node lost_system lost_john) 0"
  "route_returns lost_system (pickup_node lost_system lost_john) (Suc 0)"
  by (simp_all add: unroutable_def routable_def route_returns_def scenario_pickups lost_routes
      route_truthy_def)

lemma lost_diverges: "process_passenger_requests grid_numerics lost_system = None"
proof (rule hopeless_diverges)
  show "has_hopeless lost_system"
    by (simp add: has_hopeless_def hopeless_def scenario_candidates lost_unroutable)
  show "all_compute grid_numerics lost_system"
    by (simp add: all_compute_def cycle_computes_def scenario_candidates lost_unroutable)
qed

lemma island_routable:
  "unroutable island_system (pickup_node island_system john) 0"
  "unroutable island_system (pickup_node island_system john) (Suc 0)"
  "\<not> unroutable island_system (pickup_node island_system john) 2"
  "routable island_system (pickup_node island_system john) 2"
  "route_returns island_system (pickup_node island_system john) 0"
  "route_returns island_system (pickup_node island_system john) (Suc 0)"
  "route_returns island_system (pickup_node island_system john) 2"
  "\<not> routable island_after (pickup_node island_after john) 0"
  "\<not> routable island_after (pickup_node island_after john) (Suc 0)"
  by (simp_all add: unroutable_def routable_def route_returns_def scenario_pickups island_routes
      route_truthy_def)

lemma island_all_compute: "all_compute grid_numerics island_system"
  by (simp add: all_compute_def cycle_computes_def scenario_candidates island_routable)

lemma island_doomed: "doomed grid_numerics island_system"
proof (rule doomed.later)
  show "passenger_request_queue island_system \<noteq> []" by simp
  show "dispatch_cycle grid_numerics island_system = Some (Inr island_after)"
    by (rule island_cycle)
  have "has_hopeless island_after"
    by (simp add: has_hopeless_def hopeless_def scenario_candidates island_routable)
  then show "doomed grid_numerics island_after" by (rule doomed.now)
qed

lemma island_diverges: "process_passenger_requests grid_numerics island_system = None"
  using island_doomed island_all_compute by (rule doomed_diverges)

lemma swapped_routable:
  "routable swapped_system (pickup_node swapped_system john) 0"
  "routable swapped_system (pickup_node swapped_system john) (Suc 0)"
  "route_returns swapped_system (pickup_node swapped_system john) 0"
  "route_returns swapped_system (pickup_node swapped_system john) (Suc 0)"
  by (simp_all add: routable_def route_returns_def scenario_pickups swapped_routes
      route_truthy_def)

lemma swapped_all_compute: "all_compute grid_numerics swapped_system"
  by (simp add: all_compute_def cycle_computes_def scenario_candidates swapped_routable)

lemma swapped_not_doomed: "\<not> doomed grid_numerics swapped_system"
proof
  assume "doomed grid_numerics swapped_system"
  then show False
  proof cases
    case now
    then show False
      by (simp add: has_hopeless_def hopeless_def scenario_candidates swapped_routable)
  next
    case (later st')
    from later(2) swapped_cycle have q': "passenger_request_queue st' = []" by auto
    from later(3) show False
    proof cases
      case now
      with q' show False by (simp add: has_hopeless_def)
    next
      case (later st'')
      with q' show False by simp
    qed
  qed
qed

section \<open>Drains that do not return\<close>

text \<open>
  Two drains that do not return. In \<open>lost_system\<close> the only request is unroutable for both
  available drivers (its pickup has no node). In \<open>island_system\<close> the only request matches
  a driver, and the copies that the same cycle put back in the queue find no driver.
\<close>

theorem unmatched_request_drain_diverges:
  "passenger_request_queue lost_system = [lost_john]
   \<and> candidates lost_system = [0, 1]
   \<and> unroutable lost_system (pickup_node lost_system lost_john) 0
   \<and> unroutable lost_system (pickup_node lost_system lost_john) 1
   \<and> process_passenger_requests grid_numerics lost_system = None
   \<and> passenger_request_queue island_system = [john]
   \<and> routable island_system (pickup_node island_system john) 2
   \<and> process_passenger_requests grid_numerics island_system = None"
  using lost_diverges island_diverges lost_unroutable island_routable scenario_candidates
  by simp

theorem drain_returns_unless_doomed_witness:
  "all_compute grid_numerics island_system \<and> doomed grid_numerics island_system
   \<and> process_passenger_requests grid_numerics island_system = None
   \<and> all_compute grid_numerics swapped_system
   \<and> (\<exists>st'. process_passenger_requests grid_numerics swapped_system = Some (Inr st')
             \<and> passenger_request_queue st' = [])"
  using drain_returns_unless_doomed[OF island_all_compute]
    drain_returns_unless_doomed[OF swapped_all_compute]
    island_all_compute island_doomed swapped_all_compute swapped_not_doomed
  by blast

section \<open>Instances\<close>

theorem assign_ride_commit_or_requeue_witness:
  "0 < length (drivers swapped_system) \<and> is_available (drivers swapped_system ! 0)
   \<and> \<not> is_available (drivers (assign_ride swapped_system 0 john (Some [Some ''C'']) PInf) ! 0)
   \<and> current_passenger (drivers (assign_ride swapped_system 0 john (Some [Some ''C'']) PInf) ! 0)
       = Some john
   \<and> current_route (drivers (assign_ride swapped_system 0 john (Some [Some ''C'']) PInf) ! 0)
       = Some (Some [Some ''C''])
   \<and> passenger_request_queue (assign_ride swapped_system 0 john (Some [Some ''C'']) PInf) = [john]
   \<and> 0 < length (drivers busy_system) \<and> \<not> is_available (drivers busy_system ! 0)
   \<and> drivers (assign_ride busy_system 0 john (Some [Some ''C'']) PInf) = drivers busy_system
   \<and> passenger_request_queue (assign_ride busy_system 0 john (Some [Some ''C'']) PInf) = [john]"
  using assign_ride_commit_or_requeue[of 0 swapped_system john "Some [Some ''C'']" PInf]
    assign_ride_commit_or_requeue[of 0 busy_system john "Some [Some ''C'']" PInf]
  by (simp add: mk_driver_def)

theorem canceled_request_dropped_witness:
  "passenger_request_queue canceled_system = [canceled_john] \<and> is_canceled canceled_john
   \<and> dispatch_cycle grid_numerics canceled_system
       = Some (Inr (canceled_system\<lparr>passenger_request_queue := []\<rparr>))"
  using canceled_request_dropped[of canceled_system canceled_john "[]" grid_numerics]
  by simp




theorem requeue_per_unroutable_candidate_witness:
  "passenger_request_queue island_system = [john] \<and> \<not> is_canceled john
   \<and> dispatch_cycle grid_numerics island_system = Some (Inr island_after)
   \<and> candidates island_system = [0, 1, 2]
   \<and> unroutable island_system (pickup_node island_system john) 0
   \<and> unroutable island_system (pickup_node island_system john) 1
   \<and> routable island_system (pickup_node island_system john) 2
   \<and> passenger_request_queue island_after = [john, john]
   \<and> current_passenger (drivers island_after ! 2) = Some john"
proof -
  have q: "passenger_request_queue island_system = [john]" by simp
  have nc: "\<not> is_canceled john" by simp
  have c: "dispatch_cycle grid_numerics island_system = Some (Inr island_after)"
    by (rule island_cycle)
  from requeue_per_unroutable_candidate[OF q nc c]
  have "passenger_request_queue island_after =
          [] @ replicate (length (filter (unroutable island_system (pickup_node island_system john))
                                    (candidates island_system))) john
             @ (if \<exists>i\<in>set (candidates island_system).
                     routable island_system (pickup_node island_system john) i then [] else [john])"
    by simp
  then have qa: "passenger_request_queue island_after = [john, john]"
    by (simp only: scenario_candidates) (simp add: island_routable)
  have "current_passenger (drivers island_after ! 2) = Some john" by simp
  with qa c show ?thesis by (simp add: scenario_candidates island_routable)
qed

end
